theory Spec2Isabelle
  imports Complex_Main
begin

section \<open>The hierarchical tensor basis of G+Smo (gsHTensorBasis)\<close>

text \<open>
  A shallow embedding of \<^verbatim>\<open>src/gsHSplines/gsHTensorBasis.hpp\<close>: the per-level tensor
  bases \<^verbatim>\<open>m_bases\<close>, the characteristic matrices \<^verbatim>\<open>m_xmatrix\<close> (one sorted vector of flat
  tensor indices per level), the offset table \<^verbatim>\<open>m_xmatrix_offset\<close> and the tree \<^verbatim>\<open>m_tree\<close>.

  Unsigned indices are natural numbers, \<^verbatim>\<open>index_t\<close> and \<^verbatim>\<open>int\<close> values are integers, knot
  values (the template type \<^verbatim>\<open>T\<close>) are rationals: the functions modelled here only compare
  them. \<^verbatim>\<open>GISMO_ASSERT\<close> is modelled as it behaves in a debug build: a failed assertion ends
  the call with an error. A read or an erase outside a vector, which C++ leaves undefined,
  ends the call with \<open>OutOfBounds\<close>.
\<close>

datatype error = AssertionFailed string | GismoError string | OutOfBounds

type_synonym point = "nat list"

subsection \<open>Knot vectors and tensor bases\<close>

text \<open>
  Modelled from the spec: the classes gsKnotVector and gsTensorBSplineBasis are not among
  the sources. A knot vector is its non-decreasing knot sequence, with repetitions. A
  position in the sequence (\<^verbatim>\<open>smart_iterator::index()\<close>) has a unique index
  (\<^verbatim>\<open>uIndex()\<close>): the number of distinct knots before it.
\<close>

definition uniqueKnots :: "rat list \<Rightarrow> rat list" where
  "uniqueKnots ks = remdups_adj ks"

definition uIndex :: "rat list \<Rightarrow> nat \<Rightarrow> nat" where
  "uIndex ks p = length (remdups_adj (take (Suc p) ks)) - 1"

definition uSize :: "rat list \<Rightarrow> nat" where
  "uSize ks = length (remdups_adj ks)"

text \<open>
  Modelled from the spec: a tensor basis is one degree and one knot vector for each
  parametric direction; direction \<open>j\<close> has \<open>length knots - degree - 1\<close> functions, and
  ``strides convert between tensor indices and flat (lexicographic) scalar indices'', the
  first direction running fastest.
\<close>

record gsTensorBSplineBasis =
  degrees :: "nat list"
  knotVectors :: "rat list list"

definition numFunctions :: "nat \<Rightarrow> rat list \<Rightarrow> nat" where
  "numFunctions deg ks = length ks - deg - 1"

definition sizes :: "gsTensorBSplineBasis \<Rightarrow> nat list" where
  "sizes b = map2 numFunctions (degrees b) (knotVectors b)"

fun flatIndex :: "nat list \<Rightarrow> point \<Rightarrow> nat" where
  "flatIndex (s # ss) (i # is) = i + s * flatIndex ss is"
| "flatIndex _ _ = 0"

definition index :: "gsTensorBSplineBasis \<Rightarrow> point \<Rightarrow> nat" where
  "index b ind = flatIndex (sizes b) ind"

text \<open>
  Modelled from the spec: ``basis[i+1] is obtained from basis[i] by exactly one uniform
  dyadic knot-insertion refinement in every parametric direction''. \<open>uniformRefine 1 mul\<close>
  puts the midpoint into every non-empty knot span, \<open>mul\<close> times.
\<close>

fun refineKnots :: "nat \<Rightarrow> rat list \<Rightarrow> rat list" where
  "refineKnots mul (a # b # ks) =
     (if a < b then a # replicate mul ((a + b) / 2) @ refineKnots mul (b # ks)
      else a # refineKnots mul (b # ks))"
| "refineKnots mul ks = ks"

definition uniformRefine_tb :: "nat \<Rightarrow> gsTensorBSplineBasis \<Rightarrow> gsTensorBSplineBasis" where
  "uniformRefine_tb mul b = b\<lparr>knotVectors := map (refineKnots mul) (knotVectors b)\<rparr>"

text \<open>
  Modelled from the spec: nextLexicographic is not among the sources. The loop
  \<^verbatim>\<open>do ... while (nextLexicographic(curr,starts,ends))\<close> ``iterates every tensor-index
  function'': it visits the positions between \<open>starts\<close> (position 0) and \<open>ends\<close> (past the
  end) in lexicographic order, the first direction running fastest.
\<close>

fun lexGrid :: "nat list \<Rightarrow> point list" where
  "lexGrid [] = [[]]"
| "lexGrid (n # ns) = concat (map (\<lambda>rest. map (\<lambda>i. i # rest) [0..<n]) (lexGrid ns))"

subsection \<open>The tree\<close>

text \<open>
  Modelled from the spec: the class gsHDomain is not among the sources. ``Each leaf carries
  the refinement level assigned to its enclosed region'', an axis-aligned box whose corners
  are stored in the index units of the level \<open>indexLevel\<close> (``coordinates at level L are
  obtained by doubling per-refinement relative to level 0''); \<open>maxInsLevel\<close> is the
  ``highest level ever assigned to any leaf''.
\<close>

record leaf =
  lowCorner :: point
  uppCorner :: point
  leafLevel :: nat

record gsHDomain =
  leaves :: "leaf list"
  maxInsLevel :: nat
  indexLevel :: nat

definition getMaxInsLevel :: "gsHDomain \<Rightarrow> nat" where
  "getMaxInsLevel t = maxInsLevel t"

definition local2globalIndex :: "gsHDomain \<Rightarrow> nat \<Rightarrow> point \<Rightarrow> point" where
  "local2globalIndex t l p =
     (if l \<le> indexLevel t then map (\<lambda>x. x * 2 ^ (indexLevel t - l)) p
      else map (\<lambda>x. x div 2 ^ (l - indexLevel t)) p)"

definition overlaps :: "point \<Rightarrow> point \<Rightarrow> leaf \<Rightarrow> bool" where
  "overlaps lo up lf \<longleftrightarrow> list_all2 (<) lo (uppCorner lf) \<and> list_all2 (<) (lowCorner lf) up"

text \<open>
  Modelled from the spec: the query used by the activation engine returns the lowest level
  among the leaves that the box overlaps (``min. is level: no coarser'', as setActive says
  of it), which is never above the highest inserted level.
\<close>

definition query3 :: "gsHDomain \<Rightarrow> point \<Rightarrow> point \<Rightarrow> nat \<Rightarrow> nat" where
  "query3 t lo up l =
     (let qlo = local2globalIndex t l lo; qup = local2globalIndex t l up
      in foldl (\<lambda>res lf. if overlaps qlo qup lf then min (leafLevel lf) res else res)
           (maxInsLevel t) (leaves t))"

text \<open>
  Modelled from the spec: \<open>init\<close> makes the whole index domain one leaf of level 0; the
  index level of the call \<^verbatim>\<open>m_tree.init(upp)\<close> is a default argument declared with the
  class, so it is an argument here.
\<close>

definition init :: "nat \<Rightarrow> point \<Rightarrow> gsHDomain" where
  "init idxLevel upp =
     \<lparr>leaves = [\<lparr>lowCorner = map (\<lambda>_. 0) upp,
                 uppCorner = map (\<lambda>x. x * 2 ^ idxLevel) upp, leafLevel = 0\<rparr>],
      maxInsLevel = 0, indexLevel = idxLevel\<rparr>"

text \<open>
  Modelled from the spec: compressing the tree is ``a housekeeping pass, not observable
  externally except for performance''; \<open>multiplyByTwo\<close> ``doubles every coordinate in the
  tree''. The spec is silent on \<open>decrementLevel\<close>, which makeCompressed calls when it drops
  the coarsest level: every level of the tree goes down by one.
\<close>

definition makeCompressed_tree :: "gsHDomain \<Rightarrow> gsHDomain" where
  "makeCompressed_tree t = t"

definition multiplyByTwo :: "gsHDomain \<Rightarrow> gsHDomain" where
  "multiplyByTwo t =
     t\<lparr>leaves := map (\<lambda>lf. lf\<lparr>lowCorner := map (\<lambda>x. 2 * x) (lowCorner lf),
                                uppCorner := map (\<lambda>x. 2 * x) (uppCorner lf)\<rparr>) (leaves t)\<rparr>"

definition decrementLevel :: "gsHDomain \<Rightarrow> gsHDomain" where
  "decrementLevel t =
     t\<lparr>leaves := map (\<lambda>lf. lf\<lparr>leafLevel := leafLevel lf - 1\<rparr>) (leaves t),
       maxInsLevel := maxInsLevel t - 1\<rparr>"

text \<open>
  Modelled from the spec: sinking a box ``subdivides existing leaves to assign a finer
  level to a sub-region''. A leaf that the box overlaps is cut along the faces of the box,
  one direction after the other; the part inside the box goes one level up.
\<close>

fun sinkLeaf :: "nat \<Rightarrow> point \<Rightarrow> point \<Rightarrow> leaf \<Rightarrow> leaf list" where
  "sinkLeaf 0 qlo qup lf = [lf\<lparr>leafLevel := Suc (leafLevel lf)\<rparr>]"
| "sinkLeaf (Suc j) qlo qup lf =
     (let a = lowCorner lf ! j; b = uppCorner lf ! j;
          lo' = max a (qlo ! j); up' = min b (qup ! j)
      in (if a < lo' then [lf\<lparr>uppCorner := (uppCorner lf)[j := lo']\<rparr>] else []) @
         (if up' < b then [lf\<lparr>lowCorner := (lowCorner lf)[j := up']\<rparr>] else []) @
         sinkLeaf j qlo qup
           (lf\<lparr>lowCorner := (lowCorner lf)[j := lo'], uppCorner := (uppCorner lf)[j := up']\<rparr>))"

definition sinkBox :: "point \<Rightarrow> point \<Rightarrow> nat \<Rightarrow> gsHDomain \<Rightarrow> gsHDomain" where
  "sinkBox k1 k2 lvl t =
     (let qlo = local2globalIndex t lvl k1; qup = local2globalIndex t lvl k2;
          ls = concat (map (\<lambda>lf. if overlaps qlo qup lf
                                  then sinkLeaf (length qlo) qlo qup lf else [lf]) (leaves t))
      in t\<lparr>leaves := ls, maxInsLevel := foldl max (maxInsLevel t) (map leafLevel ls)\<rparr>)"

subsection \<open>The hierarchical basis and its activation tables\<close>

record gsHTensorBasis =
  m_deg :: "nat list"
  m_bases :: "gsTensorBSplineBasis list"
  m_tree :: gsHDomain
  m_xmatrix :: "nat list list"
  m_xmatrix_offset :: "int list"

text \<open>
  \<^verbatim>\<open>needLevel(maxLevel)\<close>: \<open>extraLevels = maxLevel + 1 - m_bases.size()\<close> clones of the last
  basis, each refined once, are appended. \<^verbatim>\<open>m_bases.back()\<close> of an empty array is undefined.
\<close>

fun extendLevels :: "nat \<Rightarrow> gsTensorBSplineBasis list \<Rightarrow> gsTensorBSplineBasis list" where
  "extendLevels 0 bs = bs"
| "extendLevels (Suc n) bs = extendLevels n (bs @ [uniformRefine_tb 1 (last bs)])"

definition needLevel ::
  "nat \<Rightarrow> gsTensorBSplineBasis list \<Rightarrow> error + gsTensorBSplineBasis list" where
  "needLevel maxLevel bs =
     (let extraLevels = int maxLevel + 1 - int (length bs)
      in if extraLevels \<le> 0 then Inr bs
         else if bs = [] then Inl OutOfBounds
         else Inr (extendLevels (nat extraLevels) bs))"

text \<open>
  \<^verbatim>\<open>set_activ1(level)\<close>. The iteration runs over the positions from \<^verbatim>\<open>sbegin()\<close> to
  \<^verbatim>\<open>send() - m_deg[i] - 1\<close> in each direction. For the function at position \<open>p\<close> the support
  box is \<open>low = uIndex p\<close>, \<open>upp = uIndex (p + m_deg[i] + 1)\<close>. The body of the do-while loop
  runs before the first test: with no function in some direction it reads a knot past the
  end of the knot vector.
\<close>

definition supportLow :: "gsTensorBSplineBasis \<Rightarrow> point \<Rightarrow> point" where
  "supportLow b ind = map2 (\<lambda>ks p. uIndex ks p) (knotVectors b) ind"

definition supportUpp :: "nat list \<Rightarrow> gsTensorBSplineBasis \<Rightarrow> point \<Rightarrow> point" where
  "supportUpp deg b ind =
     map2 (\<lambda>ks (d, p). uIndex ks (p + d + 1)) (knotVectors b) (zip deg ind)"

definition iterationEnds :: "nat list \<Rightarrow> gsTensorBSplineBasis \<Rightarrow> nat list" where
  "iterationEnds deg b = map2 numFunctions deg (knotVectors b)"

definition set_activ1 :: "nat \<Rightarrow> gsHTensorBasis \<Rightarrow> error + gsHTensorBasis" where
  "set_activ1 level st =
     (if length (m_xmatrix st) \<le> level then Inl OutOfBounds
      else if getMaxInsLevel (m_tree st) < level
        then Inr (st\<lparr>m_xmatrix := (m_xmatrix st)[level := []]\<rparr>)
      else if length (m_bases st) \<le> level then Inl OutOfBounds
      else
        (let b = m_bases st ! level;
             grid = lexGrid (iterationEnds (m_deg st) b)
         in if grid = [] then Inl OutOfBounds
            else
              (let cmat = map (index b)
                     (filter (\<lambda>ind. query3 (m_tree st) (supportLow b ind)
                                        (supportUpp (m_deg st) b ind) level = level) grid)
               in Inr (st\<lparr>m_xmatrix := (m_xmatrix st)[level := sort cmat]\<rparr>))))"

fun set_activ_levels :: "nat list \<Rightarrow> gsHTensorBasis \<Rightarrow> error + gsHTensorBasis" where
  "set_activ_levels [] st = Inr st"
| "set_activ_levels (i # is) st =
     (case set_activ1 i st of Inl e \<Rightarrow> Inl e | Inr st' \<Rightarrow> set_activ_levels is st')"

text \<open>
  \<^verbatim>\<open>update_structure()\<close>: enough levels, empty characteristic matrices, one for each basis,
  the tree compressed, \<^verbatim>\<open>set_activ1\<close> for every level, then the offsets: 0 first, and one
  more entry for each level, the last entry plus the size of the level's matrix.
\<close>

definition computeOffsets :: "nat list list \<Rightarrow> int list" where
  "computeOffsets xs = foldl (\<lambda>off x. off @ [last off + int (length x)]) [0] xs"

definition update_structure :: "gsHTensorBasis \<Rightarrow> error + gsHTensorBasis" where
  "update_structure st =
     (case needLevel (getMaxInsLevel (m_tree st)) (m_bases st) of
        Inl e \<Rightarrow> Inl e
      | Inr bs \<Rightarrow>
          (case set_activ_levels [0..<length bs]
                  (st\<lparr>m_bases := bs, m_xmatrix := replicate (length bs) [],
                      m_tree := makeCompressed_tree (m_tree st)\<rparr>) of
             Inl e \<Rightarrow> Inl e
           | Inr st' \<Rightarrow> Inr (st'\<lparr>m_xmatrix_offset := computeOffsets (m_xmatrix st')\<rparr>)))"

text \<open>\<^verbatim>\<open>size()\<close> is \<^verbatim>\<open>m_xmatrix_offset.back()\<close>.\<close>

definition size_h :: "gsHTensorBasis \<Rightarrow> error + int" where
  "size_h st = (if m_xmatrix_offset st = [] then Inl OutOfBounds
                else Inr (last (m_xmatrix_offset st)))"


subsection \<open>Construction\<close>

text \<open>
  \<^verbatim>\<open>initialize_class(tbasis)\<close>: the degrees, a clone of the initial basis (an error when it
  is not a tensor basis), the tree with the last unique-knot index of each direction as
  upper corner, and two more bases by dyadic refinement. \<open>uSize() - 1\<close> is unsigned: it
  wraps around for a knot vector without knots.
\<close>

datatype gsBasis = TensorBasis gsTensorBSplineBasis | OtherBasis "nat list"

fun degree :: "gsBasis \<Rightarrow> nat list" where
  "degree (TensorBasis tb) = degrees tb"
| "degree (OtherBasis ds) = ds"

definition initialize_class ::
  "nat \<Rightarrow> gsBasis \<Rightarrow> gsHTensorBasis \<Rightarrow> error + gsHTensorBasis" where
  "initialize_class idxLevel tbasis st =
     (case tbasis of
        OtherBasis _ \<Rightarrow> Inl (GismoError ''Cannot construct a Hierarchical basis'')
      | TensorBasis tb2 \<Rightarrow>
          (let bases1 = m_bases st @ [tb2];
               upp = map (\<lambda>ks. if uSize ks = 0 then 2 ^ 32 - 1 else uSize ks - 1)
                     (knotVectors (bases1 ! 0));
               bases2 = bases1 @ [uniformRefine_tb 1 (bases1 ! 0)];
               bases3 = bases2 @ [uniformRefine_tb 1 (bases2 ! 1)]
           in Inr (st\<lparr>m_deg := degree tbasis, m_bases := bases3,
                      m_tree := init idxLevel upp\<rparr>)))"

text \<open>
  Modelled from the spec: the constructors are declared in gsHTensorBasis.h, which is not
  among the sources. ``The tree and per-level basis/active-set arrays are created together
  at construction from an initial tensor basis'': a new, empty object runs
  \<^verbatim>\<open>initialize_class\<close> and then \<^verbatim>\<open>update_structure\<close>.
\<close>

definition emptyBasis :: gsHTensorBasis where
  "emptyBasis = \<lparr>m_deg = [], m_bases = [],
                 m_tree = \<lparr>leaves = [], maxInsLevel = 0, indexLevel = 0\<rparr>,
                 m_xmatrix = [], m_xmatrix_offset = []\<rparr>"

definition construct :: "nat \<Rightarrow> gsBasis \<Rightarrow> error + gsHTensorBasis" where
  "construct idxLevel tbasis =
     (case initialize_class idxLevel tbasis emptyBasis of
        Inl e \<Rightarrow> Inl e
      | Inr st \<Rightarrow> update_structure st)"

subsection \<open>Compression\<close>

text \<open>
  \<^verbatim>\<open>makeCompressed()\<close>: while \<^verbatim>\<open>m_xmatrix_offset[1]\<close> is zero, the first basis, the first
  characteristic matrix and the first offset are erased and the tree goes one level down.
\<close>

function makeCompressed :: "gsHTensorBasis \<Rightarrow> error + gsHTensorBasis" where
  "makeCompressed st =
     (if length (m_xmatrix_offset st) < 2 then Inl OutOfBounds
      else if m_xmatrix_offset st ! 1 = 0 then
        (if m_bases st = [] \<or> m_xmatrix st = [] then Inl OutOfBounds
         else makeCompressed
                (st\<lparr>m_bases := tl (m_bases st), m_tree := decrementLevel (m_tree st),
                    m_xmatrix := tl (m_xmatrix st),
                    m_xmatrix_offset := tl (m_xmatrix_offset st)\<rparr>))
      else Inr st)"
  by pat_completeness auto
termination
  by (relation "measure (\<lambda>st. length (m_xmatrix_offset st))") auto

subsection \<open>From flat tensor indices to hierarchical indices\<close>

text \<open>
  \<^verbatim>\<open>std::lower_bound\<close> on a sorted vector: the first position whose element is not less than
  the value.
\<close>

definition lower_bound :: "nat list \<Rightarrow> nat \<Rightarrow> nat" where
  "lower_bound xs v = length (takeWhile (\<lambda>x. x < v) xs)"

text \<open>
  A value stored into an \<^verbatim>\<open>int\<close> keeps its low 32 bits, read as a signed number.
\<close>

definition wrapInt :: "int \<Rightarrow> int" where
  "wrapInt v = (let y = v mod 2 ^ 32 in if y < 2 ^ 31 then y else y - 2 ^ 32)"

text \<open>
  \<^verbatim>\<open>flatTensorIndexToHierachicalIndex(index, level)\<close>: \<open>level\<close> is an \<^verbatim>\<open>int\<close>, compared as
  \<^verbatim>\<open>unsigned\<close> with the number of levels and used as a \<^verbatim>\<open>size_t\<close> subscript. The result
  is an \<^verbatim>\<open>int\<close>: the sum of the offset and the iterator difference is narrowed to it.
\<close>

definition flatTensorIndexToHierachicalIndex ::
  "gsHTensorBasis \<Rightarrow> nat \<Rightarrow> int \<Rightarrow> error + int" where
  "flatTensorIndexToHierachicalIndex st idx level =
     (if int (length (m_xmatrix st)) \<le> level mod 2 ^ 32 then Inr (- 1)
      else
        (let l = nat (level mod 2 ^ 64)
         in if length (m_xmatrix st) \<le> l then Inl OutOfBounds
            else
              (let xs = m_xmatrix st ! l; it = lower_bound xs idx
               in if it = length xs \<or> xs ! it \<noteq> idx then Inr (- 1)
                  else if length (m_xmatrix_offset st) \<le> l then Inl OutOfBounds
                  else Inr (wrapInt (m_xmatrix_offset st ! l + int it)))))"

text \<open>
  \<^verbatim>\<open>flatTensorIndexesToHierachicalIndexes(indexes, level)\<close>: the sorted \<open>indexes\<close> and the
  level's matrix are walked together, and \<^verbatim>\<open>m_xmatrix_offset[level]\<close> is read when an index
  is found and the sum with the counter is stored into the \<^verbatim>\<open>int\<close> element;
  \<^verbatim>\<open>static_cast<int>\<close> reads an unsigned entry as a 32-bit signed one.
\<close>

definition castInt :: "nat \<Rightarrow> int" where
  "castInt x = wrapInt (int x)"

fun walkIndexes ::
  "int list \<Rightarrow> nat \<Rightarrow> nat \<Rightarrow> int list \<Rightarrow> nat list \<Rightarrow> error + int list" where
  "walkIndexes offs l n [] xs = Inr []"
| "walkIndexes offs l n (i # is) [] = Inr (- 1 # map (\<lambda>_. - 1) is)"
| "walkIndexes offs l n (i # is) (x # xs) =
     (if i < castInt x then
        (case walkIndexes offs l n is (x # xs) of
           Inl e \<Rightarrow> Inl e
         | Inr r \<Rightarrow> Inr (- 1 # r))
      else if i = castInt x then
        (if length offs \<le> l then Inl OutOfBounds
         else (case walkIndexes offs l (Suc n) is xs of
                 Inl e \<Rightarrow> Inl e
               | Inr r \<Rightarrow> Inr (wrapInt (offs ! l + int n) # r)))
      else walkIndexes offs l (Suc n) (i # is) xs)"

definition flatTensorIndexesToHierachicalIndexes ::
  "gsHTensorBasis \<Rightarrow> int list \<Rightarrow> int \<Rightarrow> error + int list" where
  "flatTensorIndexesToHierachicalIndexes st indexes level =
     (let l = nat (level mod 2 ^ 64)
      in if \<not> l < length (m_xmatrix st)
           then Inl (AssertionFailed ''Requested level does not exist.'')
         else walkIndexes (m_xmatrix_offset st) l 0 indexes (m_xmatrix st ! l))"

subsection \<open>Uniform refinement\<close>



subsection \<open>Refinement by parametric boxes\<close>

text \<open>
  A \<^verbatim>\<open>gsMatrix\<close> of boxes: \<open>rows\<close> coordinates in each column, the columns \<open>2i\<close> and \<open>2i+1\<close>
  being the two corners of box \<open>i\<close>.
\<close>

record gsMatrix =
  rows :: nat
  columns :: "rat list list"

text \<open>
  Modelled from the spec: the knot-vector iterators \<^verbatim>\<open>domainUBegin()\<close> and \<^verbatim>\<open>domainUEnd()\<close>
  stand at the unique knots that begin and end the parametric domain (the knots at the
  positions \<open>degree\<close> and \<open>length - degree - 1\<close>); \<^verbatim>\<open>support()\<close> of the basis is that domain.
\<close>

definition domainUBegin :: "nat \<Rightarrow> rat list \<Rightarrow> nat" where
  "domainUBegin deg ks = uIndex ks deg"

definition domainUEnd :: "nat \<Rightarrow> rat list \<Rightarrow> nat" where
  "domainUEnd deg ks = uIndex ks (length ks - deg - 1)"

definition supportOf :: "gsTensorBSplineBasis \<Rightarrow> (rat \<times> rat) list" where
  "supportOf b =
     map2 (\<lambda>deg ks. (ks ! deg, ks ! (length ks - deg - 1))) (degrees b) (knotVectors b)"

text \<open>
  \<^verbatim>\<open>std::upper_bound(first, last, v)\<close> on the sorted unique knots: the first position in
  \<open>[first, last)\<close> whose knot is greater than \<open>v\<close>, or \<open>last\<close>.
\<close>

definition upper_bound :: "rat list \<Rightarrow> nat \<Rightarrow> nat \<Rightarrow> rat \<Rightarrow> nat" where
  "upper_bound us first lst v =
     first + length (takeWhile (\<lambda>x. x \<le> v) (take (lst - first) (drop first us)))"

text \<open>
  The body of the loops of \<^verbatim>\<open>refine(boxes)\<close>. In direction \<open>j\<close> the two corners become the
  unique-knot indices \<open>k1[j]\<close>, \<open>k2[j]\<close> of the finest basis (\<open>cornerIndices\<close>; stepping back
  from the first unique knot is undefined), and ``trivial boxes trigger some refinement''
  (\<open>trivialBox\<close>).
\<close>

definition cornerIndices :: "nat \<Rightarrow> rat list \<Rightarrow> rat \<Rightarrow> rat \<Rightarrow> error + nat \<times> nat" where
  "cornerIndices deg ks lo hi =
     (let us = uniqueKnots ks;
          p1 = upper_bound us (domainUBegin deg ks) (domainUEnd deg ks) lo;
          p2 = upper_bound us (domainUBegin deg ks) (domainUEnd deg ks + 1) hi
      in if p1 = 0 \<or> p2 = 0 then Inl OutOfBounds else Inr (p1 - 1, p2 - 1))"

definition trivialBox :: "nat \<times> nat \<Rightarrow> nat \<times> nat" where
  "trivialBox k =
     (if fst k = snd k then ((if 0 \<noteq> fst k then fst k - 1 else fst k), snd k + 1) else k)"

fun boxIndices ::
  "(nat \<times> nat \<Rightarrow> nat \<times> nat) \<Rightarrow> gsTensorBSplineBasis \<Rightarrow> rat list \<Rightarrow> rat list \<Rightarrow> nat list
     \<Rightarrow> error + point \<times> point" where
  "boxIndices adj b lo hi [] = Inr ([], [])"
| "boxIndices adj b lo hi (j # js) =
     (case cornerIndices (degrees b ! j) (knotVectors b ! j) (lo ! j) (hi ! j) of
        Inl e \<Rightarrow> Inl e
      | Inr k \<Rightarrow>
          (case boxIndices adj b lo hi js of
             Inl e \<Rightarrow> Inl e
           | Inr (k1, k2) \<Rightarrow> Inr (fst (adj k) # k1, snd (adj k) # k2)))"

text \<open>
  \<open>sunkBox\<close> is the index box that \<^verbatim>\<open>refine\<close> hands to \<^verbatim>\<open>m_tree.sinkBox\<close> for one parametric
  box; \<open>rawBox\<close> is the same box before the trivial-box step.
\<close>

definition rawBox :: "gsHTensorBasis \<Rightarrow> rat list \<Rightarrow> rat list \<Rightarrow> error + point \<times> point" where
  "rawBox st lo hi =
     (if m_bases st = [] then Inl OutOfBounds
      else boxIndices (\<lambda>k. k) (last (m_bases st)) lo hi [0..<length (m_deg st)])"

definition sunkBox :: "gsHTensorBasis \<Rightarrow> rat list \<Rightarrow> rat list \<Rightarrow> error + point \<times> point" where
  "sunkBox st lo hi =
     (if m_bases st = [] then Inl OutOfBounds
      else boxIndices trivialBox (last (m_bases st)) lo hi [0..<length (m_deg st)])"

definition refineBox :: "rat list \<Rightarrow> rat list \<Rightarrow> gsHTensorBasis \<Rightarrow> error + gsHTensorBasis" where
  "refineBox lo hi st =
     (case sunkBox st lo hi of
        Inl e \<Rightarrow> Inl e
      | Inr (k1, k2) \<Rightarrow>
          (let fLevel = length (m_bases st) - 1;
               t = sinkBox k1 k2 fLevel (m_tree st)
           in case needLevel (getMaxInsLevel t) (m_bases st) of
                Inl e \<Rightarrow> Inl e
              | Inr bs \<Rightarrow> Inr (st\<lparr>m_tree := t, m_bases := bs\<rparr>)))"

fun refineBoxes :: "rat list list \<Rightarrow> gsHTensorBasis \<Rightarrow> error + gsHTensorBasis" where
  "refineBoxes (lo # hi # cs) st =
     (case refineBox lo hi st of Inl e \<Rightarrow> Inl e | Inr st' \<Rightarrow> refineBoxes cs st')"
| "refineBoxes cs st = Inr st"

fun insideSupport :: "(rat \<times> rat) list \<Rightarrow> rat list list \<Rightarrow> bool" where
  "insideSupport para (lo # hi # cs) \<longleftrightarrow>
     list_all2 (\<lambda>p x. fst p \<le> x) para lo \<and> list_all2 (\<lambda>p x. snd p \<ge> x) para hi \<and>
     insideSupport para cs"
| "insideSupport para cs \<longleftrightarrow> True"

definition refine :: "gsMatrix \<Rightarrow> gsHTensorBasis \<Rightarrow> error + gsHTensorBasis" where
  "refine boxes st =
     (if rows boxes \<noteq> length (m_deg st)
        then Inl (AssertionFailed ''refine() needs d rows of boxes.'')
      else if length (columns boxes) mod 2 \<noteq> 0
        then Inl (AssertionFailed ''Each box needs two corners'')
      else if m_bases st = [] then Inl OutOfBounds
      else if \<not> insideSupport (supportOf (m_bases st ! 0)) (columns boxes)
        then Inl (AssertionFailed ''corner is outside the computational domain'')
      else
        (case refineBoxes (columns boxes) st of
           Inl e \<Rightarrow> Inl e
         | Inr st' \<Rightarrow> update_structure st'))"

subsection \<open>Transfer matrices\<close>

text \<open>
  The numerical kernels that \<^verbatim>\<open>transfer\<close> and \<^verbatim>\<open>transfer2\<close> call are not among the sources:
  the symmetric difference of two knot vectors, the knot insertion with its transfer
  matrix, and the two coarsening routines of the derived class, which are \<^verbatim>\<open>const\<close> and
  read the old and the new characteristic matrices. They are arguments here, and \<open>'m\<close> is
  the type of sparse matrices.
\<close>

record 'm kernels =
  symDifference :: "rat list \<Rightarrow> rat list \<Rightarrow> rat list"
  refine_withTransfer :: "gsTensorBSplineBasis \<Rightarrow> rat list list \<Rightarrow> gsTensorBSplineBasis \<times> 'm"
  coarsening_direct :: "nat list list \<Rightarrow> nat list list \<Rightarrow> 'm list \<Rightarrow> 'm"
  coarsening_direct2 :: "nat list list \<Rightarrow> nat list list \<Rightarrow> 'm list \<Rightarrow> 'm"

fun levelTransfers ::
  "'m kernels \<Rightarrow> nat \<Rightarrow> gsTensorBSplineBasis \<Rightarrow> gsTensorBSplineBasis list \<Rightarrow> nat list
     \<Rightarrow> 'm list" where
  "levelTransfers K d T0 bs [] = []"
| "levelTransfers K d T0 bs (i # is) =
     (let knots = map (\<lambda>dim. symDifference K (knotVectors (bs ! (i - 1)) ! dim)
                                (knotVectors (bs ! i) ! dim)) [0..<d];
          r = refine_withTransfer K T0 knots
      in snd r # levelTransfers K d (fst r) bs is)"

text \<open>``Add missing empty char. matrices'': while \<open>old.size() >= m_xmatrix.size()\<close>.\<close>

definition addMissing :: "nat \<Rightarrow> nat list list \<Rightarrow> nat list list" where
  "addMissing n xm = xm @ replicate (Suc n - length xm) []"

text \<open>
  \<^verbatim>\<open>while (m_xmatrix.back().size() == 0) m_xmatrix.pop_back()\<close>; \<^verbatim>\<open>back()\<close> of an empty
  vector is undefined.
\<close>

function dropEmptyBack :: "nat list list \<Rightarrow> error + nat list list" where
  "dropEmptyBack xm =
     (if xm = [] then Inl OutOfBounds
      else if last xm = [] then dropEmptyBack (butlast xm)
      else Inr xm)"
  by pat_completeness auto
termination
  by (relation "measure length") auto

definition transfer ::
  "'m kernels \<Rightarrow> nat list list \<Rightarrow> gsHTensorBasis \<Rightarrow> error + 'm \<times> gsHTensorBasis" where
  "transfer K old st =
     (case needLevel (length old) (m_bases st) of
        Inl e \<Rightarrow> Inl e
      | Inr bs \<Rightarrow>
          (let ts = levelTransfers K (length (m_deg st)) (bs ! 0) bs [1..<length bs];
               xm = addMissing (length old) (m_xmatrix st);
               result = coarsening_direct K old xm ts
           in case dropEmptyBack xm of
                Inl e \<Rightarrow> Inl e
              | Inr xm' \<Rightarrow>
                  (let sizeDiff = int (length bs) - int (length xm')
                   in Inr (result,
                        st\<lparr>m_bases := (if sizeDiff > 0 then take (length xm') bs else bs),
                           m_xmatrix := xm'\<rparr>))))"

definition transfer2 ::
  "'m kernels \<Rightarrow> nat list list \<Rightarrow> gsHTensorBasis \<Rightarrow> error + 'm \<times> gsHTensorBasis" where
  "transfer2 K old st =
     (case needLevel (length old) (m_bases st) of
        Inl e \<Rightarrow> Inl e
      | Inr bs \<Rightarrow>
          (let ts = levelTransfers K (length (m_deg st)) (bs ! 0) bs [1..<length bs];
               xm = addMissing (length old) (m_xmatrix st);
               result = coarsening_direct2 K old xm ts
           in Inr (result, st\<lparr>m_bases := bs, m_xmatrix := xm\<rparr>)))"


subsection \<open>Auxiliary notions for the statements\<close>

text \<open>
  The vector that \<^verbatim>\<open>set_activ1(level)\<close> leaves in \<^verbatim>\<open>m_xmatrix[level]\<close>; it depends on the
  bases, the degrees and the tree only.
\<close>

definition activeVector :: "gsHTensorBasis \<Rightarrow> nat \<Rightarrow> nat list" where
  "activeVector st level =
     (if getMaxInsLevel (m_tree st) < level then []
      else (let b = m_bases st ! level
            in sort (map (index b)
                 (filter (\<lambda>ind. query3 (m_tree st) (supportLow b ind)
                                    (supportUpp (m_deg st) b ind) level = level)
                    (lexGrid (iterationEnds (m_deg st) b))))))"

text \<open>
  The tensor-index functions of a basis, and the agreement of the per-level bases with
  \<^verbatim>\<open>m_deg\<close> (\<^verbatim>\<open>initialize_class\<close> copies the degrees from the first basis, and each further
  level is a refined clone).
\<close>

definition functionsOf :: "gsTensorBSplineBasis \<Rightarrow> point list" where
  "functionsOf b = lexGrid (sizes b)"

definition degreesAgree :: "gsHTensorBasis \<Rightarrow> bool" where
  "degreesAgree st \<longleftrightarrow> list_all (\<lambda>b. degrees b = m_deg st) (m_bases st)"

text \<open>
  Every per-level basis has one knot vector for each degree of \<^verbatim>\<open>m_deg\<close>, and every knot
  vector is non-decreasing.
\<close>

definition sortedKnots :: "gsHTensorBasis \<Rightarrow> bool" where
  "sortedKnots st \<longleftrightarrow>
     list_all (\<lambda>b. length (knotVectors b) = length (m_deg st) \<and>
                  list_all sorted (knotVectors b)) (m_bases st)"

text \<open>
  A small univariate example: degree 1 on the knots \<open>0, 0, 1/2, 1, 1\<close>, the basis built
  from it, and the basis after the box \<open>[0, 1/4]\<close> was refined.
\<close>

definition exampleTensorBasis :: gsTensorBSplineBasis where
  "exampleTensorBasis = \<lparr>degrees = [1], knotVectors = [[0, 0, 1 / 2, 1, 1]]\<rparr>"

definition exampleLevels :: "gsTensorBSplineBasis list" where
  "exampleLevels =
     [\<lparr>degrees = [1], knotVectors = [[0, 0, 1 / 2, 1, 1]]\<rparr>,
      \<lparr>degrees = [1], knotVectors = [[0, 0, 1 / 4, 1 / 2, 3 / 4, 1, 1]]\<rparr>,
      \<lparr>degrees = [1],
        knotVectors = [[0, 0, 1 / 8, 1 / 4, 3 / 8, 1 / 2, 5 / 8, 3 / 4, 7 / 8, 1, 1]]\<rparr>]"

definition exampleBasis :: gsHTensorBasis where
  "exampleBasis =
     \<lparr>m_deg = [1], m_bases = exampleLevels,
      m_tree = \<lparr>leaves = [\<lparr>lowCorner = [0], uppCorner = [8], leafLevel = 0\<rparr>],
                maxInsLevel = 0, indexLevel = 2\<rparr>,
      m_xmatrix = [[0, 1, 2], [], []], m_xmatrix_offset = [0, 3, 3, 3]\<rparr>"

definition exampleRefined :: gsHTensorBasis where
  "exampleRefined =
     \<lparr>m_deg = [1], m_bases = exampleLevels,
      m_tree = \<lparr>leaves = [\<lparr>lowCorner = [2], uppCorner = [8], leafLevel = 0\<rparr>,
                          \<lparr>lowCorner = [0], uppCorner = [2], leafLevel = 1\<rparr>],
                maxInsLevel = 1, indexLevel = 2\<rparr>,
      m_xmatrix = [[0, 1, 2], [0], []], m_xmatrix_offset = [0, 3, 4, 4]\<rparr>"


text \<open>
  The example basis with the whole domain refined once: no function of level 0 is active.
\<close>

definition exampleCoarseEmpty :: gsHTensorBasis where
  "exampleCoarseEmpty =
     \<lparr>m_deg = [1], m_bases = exampleLevels,
      m_tree = \<lparr>leaves = [\<lparr>lowCorner = [0], uppCorner = [8], leafLevel = 1\<rparr>],
                maxInsLevel = 1, indexLevel = 2\<rparr>,
      m_xmatrix = [[], [0, 1, 2, 3, 4], []], m_xmatrix_offset = [0, 0, 5, 5]\<rparr>"

definition exampleCompressed :: gsHTensorBasis where
  "exampleCompressed =
     \<lparr>m_deg = [1], m_bases = tl exampleLevels,
      m_tree = \<lparr>leaves = [\<lparr>lowCorner = [0], uppCorner = [8], leafLevel = 0\<rparr>],
                maxInsLevel = 0, indexLevel = 2\<rparr>,
      m_xmatrix = [[0, 1, 2, 3, 4], []], m_xmatrix_offset = [0, 5, 5]\<rparr>"

text \<open>Every direction of the basis has a function, so the do-while loop starts at one.\<close>

definition hasFunctions :: "nat list \<Rightarrow> gsTensorBSplineBasis \<Rightarrow> bool" where
  "hasFunctions deg b \<longleftrightarrow> lexGrid (iterationEnds deg b) \<noteq> []"

text \<open>The refined example after one uniform refinement.\<close>

definition exampleUniform :: gsHTensorBasis where
  "exampleUniform =
     \<lparr>m_deg = [1],
      m_bases =
        [\<lparr>degrees = [1], knotVectors = [[0, 0, 1 / 4, 1 / 2, 3 / 4, 1, 1]]\<rparr>,
         \<lparr>degrees = [1],
           knotVectors = [[0, 0, 1 / 8, 1 / 4, 3 / 8, 1 / 2, 5 / 8, 3 / 4, 7 / 8, 1, 1]]\<rparr>,
         \<lparr>degrees = [1],
           knotVectors = [[0, 0, 1 / 16, 1 / 8, 3 / 16, 1 / 4, 5 / 16, 3 / 8, 7 / 16, 1 / 2,
                           9 / 16, 5 / 8, 11 / 16, 3 / 4, 13 / 16, 7 / 8, 15 / 16, 1, 1]]\<rparr>],
      m_tree = \<lparr>leaves = [\<lparr>lowCorner = [4], uppCorner = [16], leafLevel = 0\<rparr>,
                          \<lparr>lowCorner = [0], uppCorner = [4], leafLevel = 1\<rparr>],
                maxInsLevel = 1, indexLevel = 2\<rparr>,
      m_xmatrix = [[1, 2, 3, 4], [0, 1], []], m_xmatrix_offset = [0, 4, 6, 6]\<rparr>"

text \<open>
  The example basis after the box from 0 to 1/16 was refined: the tree has a cell of level 1
  that no function of level 1 fits into. \<open>examplePruned\<close> is that basis after \<^verbatim>\<open>transfer\<close>,
  which \<^verbatim>\<open>refine_withCoefs\<close> calls after \<^verbatim>\<open>refine\<close>.
\<close>

definition exampleSmallBox :: gsHTensorBasis where
  "exampleSmallBox =
     \<lparr>m_deg = [1], m_bases = exampleLevels,
      m_tree = \<lparr>leaves = [\<lparr>lowCorner = [1], uppCorner = [8], leafLevel = 0\<rparr>,
                          \<lparr>lowCorner = [0], uppCorner = [1], leafLevel = 1\<rparr>],
                maxInsLevel = 1, indexLevel = 2\<rparr>,
      m_xmatrix = [[0, 1, 2], [], []], m_xmatrix_offset = [0, 3, 3, 3]\<rparr>"

definition examplePruned :: gsHTensorBasis where
  "examplePruned =
     \<lparr>m_deg = [1], m_bases = [exampleTensorBasis],
      m_tree = \<lparr>leaves = [\<lparr>lowCorner = [1], uppCorner = [8], leafLevel = 0\<rparr>,
                          \<lparr>lowCorner = [0], uppCorner = [1], leafLevel = 1\<rparr>],
                maxInsLevel = 1, indexLevel = 2\<rparr>,
      m_xmatrix = [[0, 1, 2]], m_xmatrix_offset = [0, 3, 3, 3]\<rparr>"

text \<open>A bivariate example: degree 1 on the knots \<open>0, 0, 1/2, 1, 1\<close> in both directions.\<close>

definition exampleTensorBasis2 :: gsTensorBSplineBasis where
  "exampleTensorBasis2 =
     \<lparr>degrees = [1, 1], knotVectors = [[0, 0, 1 / 2, 1, 1], [0, 0, 1 / 2, 1, 1]]\<rparr>"

definition exampleBasis2 :: gsHTensorBasis where
  "exampleBasis2 =
     \<lparr>m_deg = [1, 1],
      m_bases =
        [\<lparr>degrees = [1, 1], knotVectors = [[0, 0, 1 / 2, 1, 1], [0, 0, 1 / 2, 1, 1]]\<rparr>,
         \<lparr>degrees = [1, 1],
           knotVectors = [[0, 0, 1 / 4, 1 / 2, 3 / 4, 1, 1], [0, 0, 1 / 4, 1 / 2, 3 / 4, 1, 1]]\<rparr>,
         \<lparr>degrees = [1, 1],
           knotVectors = [[0, 0, 1 / 8, 1 / 4, 3 / 8, 1 / 2, 5 / 8, 3 / 4, 7 / 8, 1, 1],
                          [0, 0, 1 / 8, 1 / 4, 3 / 8, 1 / 2, 5 / 8, 3 / 4, 7 / 8, 1, 1]]\<rparr>],
      m_tree = \<lparr>leaves = [\<lparr>lowCorner = [0, 0], uppCorner = [8, 8], leafLevel = 0\<rparr>],
                maxInsLevel = 0, indexLevel = 2\<rparr>,
      m_xmatrix = [[0, 1, 2, 3, 4, 5, 6, 7, 8], [], []],
      m_xmatrix_offset = [0, 9, 9, 9]\<rparr>"

section \<open>Properties\<close>

subsection \<open>What update\_structure leaves behind\<close>

lemma activeVector_xmatrix [simp]:
  "activeVector (st\<lparr>m_xmatrix := xm\<rparr>) level = activeVector st level"
  by (simp add: activeVector_def)

lemma set_activ1_Inr:
  "set_activ1 level st = Inr st' \<Longrightarrow>
     level < length (m_xmatrix st) \<and>
     st' = st\<lparr>m_xmatrix := (m_xmatrix st)[level := activeVector st level]\<rparr>"
  by (auto simp: set_activ1_def activeVector_def Let_def split: if_splits)

lemma set_activ_levels_Inr:
  "set_activ_levels ls st = Inr st' \<Longrightarrow>
     st' = st\<lparr>m_xmatrix := foldl (\<lambda>xm l. xm[l := activeVector st l]) (m_xmatrix st) ls\<rparr>"
proof (induction ls arbitrary: st)
  case Nil
  then show ?case by simp
next
  case (Cons l ls)
  from Cons.prems obtain st1 where s1: "set_activ1 l st = Inr st1"
    and s2: "set_activ_levels ls st1 = Inr st'"
    by (auto split: sum.splits)
  from set_activ1_Inr [OF s1]
  have st1: "st1 = st\<lparr>m_xmatrix := (m_xmatrix st)[l := activeVector st l]\<rparr>" by simp
  from Cons.IH [OF s2] show ?case
    by (simp add: st1)
qed

lemma foldl_update_nth:
  "i < length xm \<Longrightarrow>
     foldl (\<lambda>xm l. xm[l := f l]) xm ls ! i = (if i \<in> set ls then f i else xm ! i)"
  by (induction ls arbitrary: xm) (auto simp: nth_list_update)

lemma length_foldl_update [simp]:
  "length (foldl (\<lambda>xm l. xm[l := f l]) xm ls) = length xm"
  by (induction ls arbitrary: xm) auto

lemma foldl_update_all:
  "length xm = n \<Longrightarrow> foldl (\<lambda>xm l. xm[l := f l]) xm [0..<n] = map f [0..<n]"
  by (rule nth_equalityI) (simp_all add: foldl_update_nth)

lemma update_structure_Inr:
  assumes "update_structure st = Inr st'"
  shows "needLevel (getMaxInsLevel (m_tree st)) (m_bases st) = Inr (m_bases st')"
    and "m_tree st' = m_tree st" and "m_deg st' = m_deg st"
    and "m_xmatrix st' = map (activeVector st') [0..<length (m_bases st')]"
    and "m_xmatrix_offset st' = computeOffsets (m_xmatrix st')"
proof -
  from assms obtain bs st1
    where nl: "needLevel (getMaxInsLevel (m_tree st)) (m_bases st) = Inr bs"
      and sa: "set_activ_levels [0..<length bs]
               (st\<lparr>m_bases := bs, m_xmatrix := replicate (length bs) [],
                   m_tree := makeCompressed_tree (m_tree st)\<rparr>) = Inr st1"
      and st': "st' = st1\<lparr>m_xmatrix_offset := computeOffsets (m_xmatrix st1)\<rparr>"
    by (auto simp: update_structure_def split: sum.splits)
  let ?s0 = "st\<lparr>m_bases := bs, m_xmatrix := replicate (length bs) [],
                   m_tree := makeCompressed_tree (m_tree st)\<rparr>"
  from set_activ_levels_Inr [OF sa]
  have st1: "st1 = ?s0\<lparr>m_xmatrix := map (activeVector ?s0) [0..<length bs]\<rparr>"
    by (simp add: foldl_update_all)
  have av: "activeVector st' = activeVector ?s0"
    by (rule ext) (simp add: st' st1 activeVector_def)
  show "needLevel (getMaxInsLevel (m_tree st)) (m_bases st) = Inr (m_bases st')"
    using nl by (simp add: st' st1)
  show "m_tree st' = m_tree st" by (simp add: st' st1 makeCompressed_tree_def)
  show "m_deg st' = m_deg st" by (simp add: st' st1)
  show "m_xmatrix st' = map (activeVector st') [0..<length (m_bases st')]"
    by (simp add: av) (simp add: st' st1)
  show "m_xmatrix_offset st' = computeOffsets (m_xmatrix st')"
    by (simp add: st' st1)
qed

lemma update_structure_example: "update_structure exampleRefined = Inr exampleRefined"
  by (simp add: exampleRefined_def exampleLevels_def
       update_structure_def needLevel_def getMaxInsLevel_def set_activ1_def
       makeCompressed_tree_def iterationEnds_def numFunctions_def query3_def
       local2globalIndex_def overlaps_def supportLow_def supportUpp_def uIndex_def
       index_def sizes_def computeOffsets_def upt_rec Let_def)

subsection \<open>The offset table\<close>

lemma computeOffsets_snoc:
  "computeOffsets (xs @ [x]) = computeOffsets xs @ [last (computeOffsets xs) + int (length x)]"
  by (simp add: computeOffsets_def)

lemma computeOffsets_Nil: "computeOffsets [] = [0]"
  by (simp add: computeOffsets_def)

lemma length_computeOffsets: "length (computeOffsets xs) = Suc (length xs)"
  by (induction xs rule: rev_induct) (simp_all add: computeOffsets_snoc computeOffsets_Nil)

lemma computeOffsets_0: "computeOffsets xs ! 0 = 0"
  by (induction xs rule: rev_induct)
     (simp_all add: computeOffsets_snoc computeOffsets_Nil nth_append length_computeOffsets)

lemma last_computeOffsets_nth: "last (computeOffsets xs) = computeOffsets xs ! length xs"
  by (simp add: last_conv_nth length_computeOffsets flip: length_0_conv)

lemma computeOffsets_Suc:
  "i < length xs \<Longrightarrow> computeOffsets xs ! Suc i = computeOffsets xs ! i + int (length (xs ! i))"
proof (induction xs rule: rev_induct)
  case Nil
  then show ?case by simp
next
  case (snoc x xs)
  show ?case
  proof (cases "i < length xs")
    case True
    with snoc.IH show ?thesis
      by (simp add: computeOffsets_snoc nth_append length_computeOffsets)
  next
    case False
    with snoc.prems have "i = length xs" by simp
    then show ?thesis
      by (simp add: computeOffsets_snoc nth_append length_computeOffsets last_computeOffsets_nth)
  qed
qed

lemma last_computeOffsets_sum:
  "last (computeOffsets xs) = (\<Sum>x\<leftarrow>xs. int (length x))"
  by (induction xs rule: rev_induct) (simp_all add: computeOffsets_snoc computeOffsets_Nil)

lemma computeOffsets_mono:
  "i \<le> j \<Longrightarrow> j \<le> length xs \<Longrightarrow> computeOffsets xs ! i \<le> computeOffsets xs ! j"
proof (induction j)
  case 0
  then show ?case by simp
next
  case (Suc j)
  show ?case
  proof (cases "i = Suc j")
    case True
    then show ?thesis by simp
  next
    case False
    with Suc.prems have "i \<le> j" "j < length xs" by simp_all
    with Suc.IH have "computeOffsets xs ! i \<le> computeOffsets xs ! j" by simp
    also have "\<dots> \<le> computeOffsets xs ! Suc j"
      using \<open>j < length xs\<close> by (simp add: computeOffsets_Suc)
    finally show ?thesis .
  qed
qed

text \<open>
  C2. After \<^verbatim>\<open>update_structure\<close> the offset table starts with 0, each further entry adds
  the size of the level's active set, so the entries never decrease, and \<^verbatim>\<open>size()\<close> returns
  the last entry, which is the sum of the sizes of all active sets.
\<close>

theorem update_structure_offset_table:
  assumes "update_structure st = Inr st'"
  shows "length (m_xmatrix_offset st') = length (m_xmatrix st') + 1 \<and>
         m_xmatrix_offset st' ! 0 = 0 \<and>
         (\<forall>i<length (m_xmatrix st').
            m_xmatrix_offset st' ! (i + 1) =
              m_xmatrix_offset st' ! i + int (length (m_xmatrix st' ! i))) \<and>
         (\<forall>i j. i \<le> j \<and> j \<le> length (m_xmatrix st') \<longrightarrow>
            m_xmatrix_offset st' ! i \<le> m_xmatrix_offset st' ! j) \<and>
         size_h st' = Inr (last (m_xmatrix_offset st')) \<and>
         last (m_xmatrix_offset st') = (\<Sum>x\<leftarrow>m_xmatrix st'. int (length x))"
proof -
  have off: "m_xmatrix_offset st' = computeOffsets (m_xmatrix st')"
    by (rule update_structure_Inr(5) [OF assms])
  have "m_xmatrix_offset st' \<noteq> []"
    unfolding off using length_computeOffsets [of "m_xmatrix st'"] by auto
  then have "size_h st' = Inr (last (m_xmatrix_offset st'))"
    by (simp add: size_h_def)
  then show ?thesis
    unfolding off
    by (simp add: length_computeOffsets computeOffsets_0 computeOffsets_Suc
          computeOffsets_mono last_computeOffsets_sum)
qed

theorem update_structure_offset_table_witness:
  "update_structure exampleRefined = Inr exampleRefined \<and>
   m_xmatrix_offset exampleRefined = [0, 3, 4, 4] \<and>
   m_xmatrix_offset exampleRefined ! 0 = 0 \<and>
   (1::nat) < length (m_xmatrix exampleRefined) \<and>
   m_xmatrix_offset exampleRefined ! (1 + 1) =
     m_xmatrix_offset exampleRefined ! 1 + int (length (m_xmatrix exampleRefined ! 1)) \<and>
   (1::nat) \<le> 3 \<and> 3 \<le> length (m_xmatrix exampleRefined) \<and>
   m_xmatrix_offset exampleRefined ! 1 \<le> m_xmatrix_offset exampleRefined ! 3 \<and>
   size_h exampleRefined = Inr 4 \<and>
   (\<Sum>x\<leftarrow>m_xmatrix exampleRefined. int (length x)) = 4"
proof -
  have h: "update_structure exampleRefined = Inr exampleRefined"
    by (rule update_structure_example)
  have e: "m_xmatrix_offset exampleRefined = [0, 3, 4, 4]"
          "m_xmatrix exampleRefined = [[0, 1, 2], [0], []]"
    by (simp_all add: exampleRefined_def)
  show ?thesis
    using h update_structure_offset_table [OF h] by (simp add: e)
qed



subsection \<open>The active sets\<close>

lemma foldl_min_le:
  "foldl (\<lambda>res lf. if P lf then min (f lf) res else res) (a::nat) xs \<le> a"
proof (induction xs arbitrary: a)
  case Nil
  then show ?case by simp
next
  case (Cons x xs)
  have "foldl (\<lambda>res lf. if P lf then min (f lf) res else res)
          (if P x then min (f x) a else a) xs \<le> (if P x then min (f x) a else a)"
    by (rule Cons.IH)
  also have "\<dots> \<le> a" by simp
  finally show ?case by simp
qed

lemma query3_le_maxInsLevel: "query3 t lo up l \<le> getMaxInsLevel t"
  unfolding query3_def getMaxInsLevel_def Let_def by (rule foldl_min_le)

lemma in_lexGrid_Cons:
  "p \<in> set (lexGrid (n # ns)) \<longleftrightarrow> (\<exists>i rest. p = i # rest \<and> i < n \<and> rest \<in> set (lexGrid ns))"
  by (auto simp: image_iff)

lemma flatIndex_inj:
  "p \<in> set (lexGrid ns) \<Longrightarrow> q \<in> set (lexGrid ns) \<Longrightarrow> flatIndex ns p = flatIndex ns q
     \<Longrightarrow> p = q"
proof (induction ns arbitrary: p q)
  case Nil
  then show ?case by simp
next
  case (Cons n ns)
  from Cons.prems(1) obtain i p' where p: "p = i # p'" "i < n" "p' \<in> set (lexGrid ns)"
    unfolding in_lexGrid_Cons by blast
  from Cons.prems(2) obtain j q' where q: "q = j # q'" "j < n" "q' \<in> set (lexGrid ns)"
    unfolding in_lexGrid_Cons by blast
  from Cons.prems(3) have eq: "i + n * flatIndex ns p' = j + n * flatIndex ns q'"
    by (simp add: p q)
  from eq have "(i + n * flatIndex ns p') mod n = (j + n * flatIndex ns q') mod n" by simp
  with p(2) q(2) have ij: "i = j" by simp
  with eq p(2) have "flatIndex ns p' = flatIndex ns q'" by simp
  with Cons.IH p(3) q(3) have "p' = q'" by blast
  with ij show ?case by (simp add: p q)
qed

lemma degrees_uniformRefine_tb [simp]: "degrees (uniformRefine_tb mul b) = degrees b"
  by (simp add: uniformRefine_tb_def)

lemma extendLevels_degrees:
  "bs \<noteq> [] \<Longrightarrow> list_all (\<lambda>b. degrees b = ds) bs
     \<Longrightarrow> list_all (\<lambda>b. degrees b = ds) (extendLevels n bs)"
proof (induction n arbitrary: bs)
  case 0
  then show ?case by simp
next
  case (Suc n)
  from Suc.prems have "degrees (last bs) = ds"
    by (simp add: list_all_iff)
  with Suc.prems have "list_all (\<lambda>b. degrees b = ds) (bs @ [uniformRefine_tb 1 (last bs)])"
    by simp
  with Suc.IH [of "bs @ [uniformRefine_tb 1 (last bs)]"] show ?case by simp
qed

lemma needLevel_degrees:
  "needLevel n bs = Inr bs' \<Longrightarrow> list_all (\<lambda>b. degrees b = ds) bs
     \<Longrightarrow> list_all (\<lambda>b. degrees b = ds) bs'"
  by (auto simp: needLevel_def Let_def extendLevels_degrees split: if_splits)

lemma update_structure_degreesAgree:
  assumes "update_structure st = Inr st'" and "degreesAgree st"
  shows "degreesAgree st'"
  using needLevel_degrees [OF update_structure_Inr(1) [OF assms(1)], of "m_deg st"] assms(2)
  by (simp add: degreesAgree_def update_structure_Inr(3) [OF assms(1)])

lemma set_activeVector:
  assumes "\<not> getMaxInsLevel (m_tree st) < i"
  shows "set (activeVector st i) =
           index (m_bases st ! i) `
             {k \<in> set (lexGrid (iterationEnds (m_deg st) (m_bases st ! i))).
                query3 (m_tree st) (supportLow (m_bases st ! i) k)
                  (supportUpp (m_deg st) (m_bases st ! i) k) i = i}"
  using assms by (simp add: activeVector_def Let_def)

lemma activeVector_iff:
  assumes deg: "degrees (m_bases st ! i) = m_deg st"
    and k: "k \<in> set (functionsOf (m_bases st ! i))"
  shows "index (m_bases st ! i) k \<in> set (activeVector st i) \<longleftrightarrow>
           query3 (m_tree st) (supportLow (m_bases st ! i) k)
             (supportUpp (m_deg st) (m_bases st ! i) k) i = i"
proof (cases "getMaxInsLevel (m_tree st) < i")
  case True
  with query3_le_maxInsLevel
         [of "m_tree st" "supportLow (m_bases st ! i) k"
             "supportUpp (m_deg st) (m_bases st ! i) k" i]
  have "query3 (m_tree st) (supportLow (m_bases st ! i) k)
          (supportUpp (m_deg st) (m_bases st ! i) k) i \<noteq> i"
    by simp
  with True show ?thesis by (simp add: activeVector_def)
next
  case False
  let ?b = "m_bases st ! i"
  have grid: "iterationEnds (m_deg st) ?b = sizes ?b"
    by (simp add: iterationEnds_def sizes_def deg)
  have inj: "\<And>k'. k' \<in> set (lexGrid (sizes ?b)) \<Longrightarrow> index ?b k' = index ?b k \<Longrightarrow> k' = k"
    using k flatIndex_inj [of _ "sizes ?b" k] by (simp add: index_def functionsOf_def)
  from k show ?thesis
    unfolding set_activeVector [OF False] grid functionsOf_def
    by (auto dest: inj)
qed

subsection \<open>Support boxes\<close>

text \<open>
  The unique index of a knot of a sorted knot vector is the number of distinct knots below
  it, so the corners that \<^verbatim>\<open>set_activ1\<close> hands to the tree are, in each direction, the
  first and the last knot of the function's support, counted in distinct knots.
\<close>

lemma distinct_remdups_adj_sorted:
  "sorted (xs::rat list) \<Longrightarrow> distinct (remdups_adj xs)"
proof (induction xs rule: remdups_adj.induct)
  case (3 x y xs)
  show ?case
  proof (cases "x = y")
    case True
    with "3.prems" have "sorted (x # xs)" by auto
    with "3.IH"(1) True show ?thesis by simp
  next
    case False
    with "3.prems" have "\<forall>z\<in>set (y # xs). x < z" by fastforce
    moreover from "3.prems" "3.IH"(2) [OF False] have "distinct (remdups_adj (y # xs))"
      by simp
    ultimately show ?thesis using False by auto
  qed
qed simp_all

lemma uIndex_eq_card:
  assumes "sorted ks" and "p < length ks"
  shows "uIndex ks p = card {t \<in> set ks. t < ks ! p}"
proof -
  let ?xs = "take (Suc p) ks"
  let ?A = "{t \<in> set ks. t < ks ! p}"
  from assms(1) have "sorted ?xs" by simp
  then have "length (remdups_adj ?xs) = card (set ?xs)"
    using distinct_card [OF distinct_remdups_adj_sorted, of ?xs] by simp
  moreover have "set ?xs = insert (ks ! p) ?A"
  proof (intro set_eqI iffI)
    fix x
    assume "x \<in> set ?xs"
    then obtain q where q: "q < Suc p" "q < length ks" "x = ks ! q"
      by (auto simp: in_set_conv_nth)
    with assms have "x \<le> ks ! p" by (simp add: sorted_nth_mono)
    with q show "x \<in> insert (ks ! p) ?A" by (cases "x = ks ! p") auto
  next
    fix x
    assume x: "x \<in> insert (ks ! p) ?A"
    show "x \<in> set ?xs"
    proof (cases "x = ks ! p")
      case True
      with assms(2) show ?thesis
        by (auto simp: in_set_conv_nth intro!: exI [of _ p])
    next
      case False
      with x obtain q where q: "q < length ks" "ks ! q = x" "x < ks ! p"
        by (auto simp: in_set_conv_nth)
      have "q < p"
      proof (rule ccontr)
        assume "\<not> q < p"
        with assms(1) q(1) have "ks ! p \<le> ks ! q" by (simp add: sorted_nth_mono)
        with q show False by simp
      qed
      with q(1,2) show ?thesis
        by (auto simp: in_set_conv_nth intro!: exI [of _ q])
    qed
  qed
  moreover have "card (insert (ks ! p) ?A) = Suc (card ?A)"
    by (rule card_insert_disjoint) simp_all
  ultimately show ?thesis by (simp add: uIndex_def)
qed

lemma in_lexGrid_iff:
  "k \<in> set (lexGrid ns) \<longleftrightarrow> length k = length ns \<and> (\<forall>j<length ns. k ! j < ns ! j)"
proof (induction ns arbitrary: k)
  case Nil
  then show ?case by simp
next
  case (Cons n ns)
  show ?case
  proof
    assume "k \<in> set (lexGrid (n # ns))"
    then obtain i rest where k: "k = i # rest" "i < n" "rest \<in> set (lexGrid ns)"
      unfolding in_lexGrid_Cons by blast
    with Cons.IH [of rest] show "length k = length (n # ns) \<and> (\<forall>j<length (n # ns). k ! j < (n # ns) ! j)"
      by (auto simp: nth_Cons split: nat.splits)
  next
    assume a: "length k = length (n # ns) \<and> (\<forall>j<length (n # ns). k ! j < (n # ns) ! j)"
    then obtain i rest where k: "k = i # rest" by (cases k) auto
    from a k have "i < n" by auto
    moreover from a k have "length rest = length ns \<and> (\<forall>j<length ns. rest ! j < ns ! j)"
      by fastforce
    with Cons.IH [of rest] have "rest \<in> set (lexGrid ns)" by simp
    ultimately show "k \<in> set (lexGrid (n # ns))"
      unfolding in_lexGrid_Cons using k by blast
  qed
qed

lemma refineKnots_hd:
  "sorted ks \<Longrightarrow> x \<in> set (refineKnots mul ks) \<Longrightarrow> hd ks \<le> x"
proof (induction mul ks arbitrary: x rule: refineKnots.induct)
  case (1 mul a b ks)
  from "1.prems"(1) have ab: "a \<le> b" and sb: "sorted (b # ks)" by simp_all
  show ?case
  proof (cases "a < b")
    case True
    with "1.prems"(2) consider "x = a" | "x = (a + b) / 2" | "x \<in> set (refineKnots mul (b # ks))"
      by auto
    then show ?thesis
    proof cases
      case 3
      from "1.IH"(1) [OF True sb 3] ab show ?thesis by simp
    qed (use True in simp_all)
  next
    case False
    with "1.prems"(2) consider "x = a" | "x \<in> set (refineKnots mul (b # ks))"
      by auto
    then show ?thesis
    proof cases
      case 2
      from "1.IH"(2) [OF False sb 2] ab show ?thesis by simp
    qed simp
  qed
qed simp_all

lemma sorted_refineKnots: "sorted ks \<Longrightarrow> sorted (refineKnots mul ks)"
proof (induction mul ks rule: refineKnots.induct)
  case (1 mul a b ks)
  from "1.prems" have ab: "a \<le> b" and sb: "sorted (b # ks)" by simp_all
  have ge: "\<forall>x\<in>set (refineKnots mul (b # ks)). b \<le> x"
    using refineKnots_hd [OF sb] by simp
  show ?case
  proof (cases "a < b")
    case True
    let ?m = "(a + b) / 2"
    from True have m: "?m \<le> b" "a \<le> ?m" by simp_all
    have "\<forall>x\<in>set (replicate mul ?m). \<forall>y\<in>set (refineKnots mul (b # ks)). x \<le> y"
      using ge m(1) by fastforce
    with "1.IH"(1) [OF True sb]
    have "sorted (replicate mul ?m @ refineKnots mul (b # ks))"
      unfolding sorted_append by simp
    moreover have "\<forall>y\<in>set (replicate mul ?m @ refineKnots mul (b # ks)). a \<le> y"
      using ge m ab by fastforce
    ultimately have "sorted (a # replicate mul ?m @ refineKnots mul (b # ks))"
      by simp
    with True show ?thesis by simp
  next
    case False
    from "1.IH"(2) [OF False sb] ge ab False show ?thesis
      by auto
  qed
qed simp_all

lemma sortedKnots_uniformRefine_tb:
  "list_all sorted (knotVectors b) \<Longrightarrow> list_all sorted (knotVectors (uniformRefine_tb mul b))"
  by (simp add: uniformRefine_tb_def list_all_iff sorted_refineKnots)

lemma extendLevels_sortedKnots:
  "bs \<noteq> [] \<Longrightarrow>
   list_all (\<lambda>b. length (knotVectors b) = d \<and> list_all sorted (knotVectors b)) bs
     \<Longrightarrow> list_all (\<lambda>b. length (knotVectors b) = d \<and> list_all sorted (knotVectors b))
           (extendLevels n bs)"
proof (induction n arbitrary: bs)
  case 0
  then show ?case by simp
next
  case (Suc n)
  from Suc.prems have "last bs \<in> set bs" by simp
  with Suc.prems(2)
  have "length (knotVectors (last bs)) = d \<and> list_all sorted (knotVectors (last bs))"
    unfolding list_all_iff by blast
  then have "length (knotVectors (uniformRefine_tb 1 (last bs))) = d \<and>
             list_all sorted (knotVectors (uniformRefine_tb 1 (last bs)))"
    using sortedKnots_uniformRefine_tb [of "last bs" 1] by (simp add: uniformRefine_tb_def)
  with Suc.prems
  have "list_all (\<lambda>b. length (knotVectors b) = d \<and> list_all sorted (knotVectors b))
          (bs @ [uniformRefine_tb 1 (last bs)])"
    by simp
  with Suc.IH [of "bs @ [uniformRefine_tb 1 (last bs)]"] show ?case by simp
qed

lemma update_structure_sortedKnots:
  assumes "update_structure st = Inr st'" and "sortedKnots st"
  shows "sortedKnots st'"
proof -
  let ?P = "\<lambda>b. length (knotVectors b) = length (m_deg st) \<and> list_all sorted (knotVectors b)"
  from assms(2) have a: "list_all ?P (m_bases st)" by (simp add: sortedKnots_def)
  have "list_all ?P (m_bases st')"
  proof (cases "m_bases st' = m_bases st")
    case True
    with a show ?thesis by simp
  next
    case False
    with update_structure_Inr(1) [OF assms(1)]
    obtain n where "m_bases st \<noteq> []" "extendLevels n (m_bases st) = m_bases st'"
      by (auto simp: needLevel_def Let_def split: if_splits)
    with extendLevels_sortedKnots [OF _ a, of n] show ?thesis by simp
  qed
  then show ?thesis
    by (simp add: sortedKnots_def update_structure_Inr(3) [OF assms(1)])
qed

lemma supportLow_eq:
  assumes "length (knotVectors b) = length k" and "length lo = length k"
    and "\<forall>j<length k. sorted (knotVectors b ! j) \<and> k ! j < length (knotVectors b ! j) \<and>
           lo ! j = card {t \<in> set (knotVectors b ! j). t < knotVectors b ! j ! (k ! j)}"
  shows "supportLow b k = lo"
proof (rule nth_equalityI)
  show "length (supportLow b k) = length lo"
    using assms(1,2) by (simp add: supportLow_def)
  fix j
  assume "j < length (supportLow b k)"
  with assms(1) have j: "j < length k" by (simp add: supportLow_def)
  with assms(1,3) show "supportLow b k ! j = lo ! j"
    by (simp add: supportLow_def uIndex_eq_card)
qed

lemma supportUpp_eq:
  assumes "length (knotVectors b) = length k" and "length deg = length k"
    and "length up = length k"
    and "\<forall>j<length k. sorted (knotVectors b ! j) \<and>
           k ! j + deg ! j + 1 < length (knotVectors b ! j) \<and>
           up ! j = card {t \<in> set (knotVectors b ! j).
                         t < knotVectors b ! j ! (k ! j + deg ! j + 1)}"
  shows "supportUpp deg b k = up"
proof (rule nth_equalityI)
  show "length (supportUpp deg b k) = length up"
    using assms(1,2,3) by (simp add: supportUpp_def)
  fix j
  assume "j < length (supportUpp deg b k)"
  with assms(1,2) have j: "j < length k" by (simp add: supportUpp_def)
  with assms(1,2,4) show "supportUpp deg b k ! j = up ! j"
    by (simp add: supportUpp_def uIndex_eq_card)
qed

lemma construct_sortedKnots:
  assumes "construct idxLevel (TensorBasis tb) = Inr st"
    and "length (knotVectors tb) = length (degrees tb)" and "list_all sorted (knotVectors tb)"
  shows "sortedKnots st"
proof -
  from assms(1) obtain st0
    where i: "initialize_class idxLevel (TensorBasis tb) emptyBasis = Inr st0"
      and u: "update_structure st0 = Inr st"
    by (auto simp: construct_def split: sum.splits)
  from i assms(2,3) have "sortedKnots st0"
    using sortedKnots_uniformRefine_tb [of tb 1]
      sortedKnots_uniformRefine_tb [of "uniformRefine_tb 1 tb" 1]
    by (auto simp: initialize_class_def emptyBasis_def sortedKnots_def Let_def
          uniformRefine_tb_def)
  with u show ?thesis by (rule update_structure_sortedKnots)
qed

text \<open>
  C1. After \<^verbatim>\<open>update_structure\<close>, for every level \<open>i\<close> and every tensor-index function \<open>k\<close>
  of \<open>basis[i]\<close> (in each direction \<open>j\<close> the knots \<open>k[j]\<close> to \<open>k[j] + degree + 1\<close> exist), the
  flat index of \<open>k\<close> is in the characteristic matrix of level \<open>i\<close> if and only if \<open>query3\<close>
  returns \<open>i\<close> on the support box of \<open>k\<close> in the index units of level \<open>i\<close>: the box whose
  lower and upper corner are, in each direction, the unique-knot indices (the number of
  distinct knots below) of the first knot \<open>k[j]\<close> and of the last knot
  \<open>k[j] + degree + 1\<close> of the function.
\<close>

theorem update_structure_active_iff_query3:
  assumes "update_structure st = Inr st'" and "degreesAgree st" and "sortedKnots st"
  shows "\<forall>i<length (m_bases st'). \<forall>k lo up.
           length k = length (m_deg st') \<and> length lo = length k \<and> length up = length k \<and>
           (\<forall>j<length k.
              k ! j + m_deg st' ! j + 1 < length (knotVectors (m_bases st' ! i) ! j) \<and>
              lo ! j = card {t \<in> set (knotVectors (m_bases st' ! i) ! j).
                             t < knotVectors (m_bases st' ! i) ! j ! (k ! j)} \<and>
              up ! j = card {t \<in> set (knotVectors (m_bases st' ! i) ! j).
                             t < knotVectors (m_bases st' ! i) ! j !
                                   (k ! j + m_deg st' ! j + 1)}) \<longrightarrow>
           (index (m_bases st' ! i) k \<in> set (m_xmatrix st' ! i) \<longleftrightarrow>
            query3 (m_tree st') lo up i = i)"
proof (intro allI impI)
  fix i k lo up
  let ?b = "m_bases st' ! i"
  assume i: "i < length (m_bases st')"
    and box: "length k = length (m_deg st') \<and> length lo = length k \<and> length up = length k \<and>
           (\<forall>j<length k.
              k ! j + m_deg st' ! j + 1 < length (knotVectors ?b ! j) \<and>
              lo ! j = card {t \<in> set (knotVectors ?b ! j). t < knotVectors ?b ! j ! (k ! j)} \<and>
              up ! j = card {t \<in> set (knotVectors ?b ! j).
                             t < knotVectors ?b ! j ! (k ! j + m_deg st' ! j + 1)})"
  have "degreesAgree st'"
    by (rule update_structure_degreesAgree [OF assms(1,2)])
  with i have deg: "degrees ?b = m_deg st'"
    by (simp add: degreesAgree_def list_all_length)
  have "sortedKnots st'"
    by (rule update_structure_sortedKnots [OF assms(1,3)])
  with i have len: "length (knotVectors ?b) = length (m_deg st')"
    and srt: "\<forall>j<length (knotVectors ?b). sorted (knotVectors ?b ! j)"
    by (simp_all add: sortedKnots_def list_all_length)
  have k: "k \<in> set (functionsOf ?b)"
    using box len deg
    by (auto simp: functionsOf_def in_lexGrid_iff sizes_def numFunctions_def)
  have lo: "supportLow ?b k = lo"
    using box len srt by (intro supportLow_eq) auto
  have up: "supportUpp (m_deg st') ?b k = up"
    using box len srt by (intro supportUpp_eq) auto
  have "m_xmatrix st' ! i = activeVector st' i"
    using i by (simp add: update_structure_Inr(4) [OF assms(1)])
  with activeVector_iff [OF deg k]
  show "index ?b k \<in> set (m_xmatrix st' ! i) \<longleftrightarrow> query3 (m_tree st') lo up i = i"
    by (simp add: lo up)
qed

lemma card_below:
  "card {t \<in> set ks. t < v} = length (remdups (filter (\<lambda>t. t < v) ks))"
  by (simp only: set_filter [symmetric] card_set)

lemma univariate_box:
  assumes "length deg = 1" and "k0 + deg ! 0 + 1 < length (kvs ! 0)"
    and "l0 = card {t \<in> set (kvs ! 0). t < kvs ! 0 ! k0}"
    and "u0 = card {t \<in> set (kvs ! 0). t < kvs ! 0 ! (k0 + deg ! 0 + 1)}"
  shows "length [k0] = length deg \<and> length [l0] = length [k0] \<and> length [u0] = length [k0] \<and>
         (\<forall>j<length [k0].
            [k0] ! j + deg ! j + 1 < length (kvs ! j) \<and>
            [l0] ! j = card {t \<in> set (kvs ! j). t < kvs ! j ! ([k0] ! j)} \<and>
            [u0] ! j = card {t \<in> set (kvs ! j). t < kvs ! j ! ([k0] ! j + deg ! j + 1)})"
  using assms by simp

theorem update_structure_active_iff_query3_witness:
  "update_structure exampleRefined = Inr exampleRefined \<and> degreesAgree exampleRefined \<and>
   sortedKnots exampleRefined \<and>
   (0::nat) < length (m_bases exampleRefined) \<and> (1::nat) < length (m_bases exampleRefined) \<and>
   knotVectors (m_bases exampleRefined ! 0) = [[0, 0, 1 / 2, 1, 1]] \<and>
   knotVectors (m_bases exampleRefined ! 1) = [[0, 0, 1 / 4, 1 / 2, 3 / 4, 1, 1]] \<and>
   card {t \<in> set [0, 0, 1 / 2, 1, 1 :: rat]. t < [0, 0, 1 / 2, 1, 1] ! 2} = 1 \<and>
   card {t \<in> set [0, 0, 1 / 2, 1, 1 :: rat]. t < [0, 0, 1 / 2, 1, 1] ! (2 + 1 + 1)} = 2 \<and>
   card {t \<in> set [0, 0, 1 / 4, 1 / 2, 3 / 4, 1, 1 :: rat].
           t < [0, 0, 1 / 4, 1 / 2, 3 / 4, 1, 1] ! 2} = 1 \<and>
   card {t \<in> set [0, 0, 1 / 4, 1 / 2, 3 / 4, 1, 1 :: rat].
           t < [0, 0, 1 / 4, 1 / 2, 3 / 4, 1, 1] ! (2 + 1 + 1)} = 3 \<and>
   index (m_bases exampleRefined ! 0) [2] \<in> set (m_xmatrix exampleRefined ! 0) \<and>
   query3 (m_tree exampleRefined) [1] [2] 0 = 0 \<and>
   index (m_bases exampleRefined ! 1) [2] \<notin> set (m_xmatrix exampleRefined ! 1) \<and>
   query3 (m_tree exampleRefined) [1] [3] 1 \<noteq> 1"
proof -
  have h: "update_structure exampleRefined = Inr exampleRefined"
    by (rule update_structure_example)
  have d: "degreesAgree exampleRefined"
    by (simp add: degreesAgree_def exampleRefined_def exampleLevels_def)
  have s: "sortedKnots exampleRefined"
    by (simp add: sortedKnots_def exampleRefined_def exampleLevels_def)
  have l: "(0::nat) < length (m_bases exampleRefined)" "(1::nat) < length (m_bases exampleRefined)"
    by (simp_all add: exampleRefined_def exampleLevels_def)
  have kv: "knotVectors (m_bases exampleRefined ! 0) = [[0, 0, 1 / 2, 1, 1]]"
    "knotVectors (m_bases exampleRefined ! 1) = [[0, 0, 1 / 4, 1 / 2, 3 / 4, 1, 1]]"
    "m_deg exampleRefined = [1]"
    by (simp_all add: exampleRefined_def exampleLevels_def)
  have c: "card {t \<in> set [0, 0, 1 / 2, 1, 1 :: rat]. t < [0, 0, 1 / 2, 1, 1] ! 2} = 1"
    "card {t \<in> set [0, 0, 1 / 2, 1, 1 :: rat]. t < [0, 0, 1 / 2, 1, 1] ! (2 + 1 + 1)} = 2"
    "card {t \<in> set [0, 0, 1 / 4, 1 / 2, 3 / 4, 1, 1 :: rat].
           t < [0, 0, 1 / 4, 1 / 2, 3 / 4, 1, 1] ! 2} = 1"
    "card {t \<in> set [0, 0, 1 / 4, 1 / 2, 3 / 4, 1, 1 :: rat].
           t < [0, 0, 1 / 4, 1 / 2, 3 / 4, 1, 1] ! (2 + 1 + 1)} = 3"
    by (subst card_below, simp)+
  have x: "index (m_bases exampleRefined ! 0) [2] \<in> set (m_xmatrix exampleRefined ! 0)"
          "index (m_bases exampleRefined ! 1) [2] \<notin> set (m_xmatrix exampleRefined ! 1)"
    by (simp_all add: exampleRefined_def exampleLevels_def index_def sizes_def
          numFunctions_def)
  note t = update_structure_active_iff_query3 [OF h d s, rule_format]
  have a: "index (m_bases exampleRefined ! 0) [2] \<in> set (m_xmatrix exampleRefined ! 0) \<longleftrightarrow>
           query3 (m_tree exampleRefined) [1] [2] 0 = 0"
  proof (rule t [OF l(1)], rule univariate_box)
    show "1 = card {t \<in> set (knotVectors (m_bases exampleRefined ! 0) ! 0).
                   t < knotVectors (m_bases exampleRefined ! 0) ! 0 ! 2}"
      unfolding kv nth_Cons_0 c ..
    show "2 = card {t \<in> set (knotVectors (m_bases exampleRefined ! 0) ! 0).
                   t < knotVectors (m_bases exampleRefined ! 0) ! 0 !
                         (2 + m_deg exampleRefined ! 0 + 1)}"
      unfolding kv nth_Cons_0 c ..
  qed (unfold kv, simp_all)
  have b: "index (m_bases exampleRefined ! 1) [2] \<in> set (m_xmatrix exampleRefined ! 1) \<longleftrightarrow>
           query3 (m_tree exampleRefined) [1] [3] 1 = 1"
  proof (rule t [OF l(2)], rule univariate_box)
    show "1 = card {t \<in> set (knotVectors (m_bases exampleRefined ! 1) ! 0).
                   t < knotVectors (m_bases exampleRefined ! 1) ! 0 ! 2}"
      unfolding kv nth_Cons_0 c ..
    show "3 = card {t \<in> set (knotVectors (m_bases exampleRefined ! 1) ! 0).
                   t < knotVectors (m_bases exampleRefined ! 1) ! 0 !
                         (2 + m_deg exampleRefined ! 0 + 1)}"
      unfolding kv nth_Cons_0 c ..
  qed (unfold kv, simp_all)
  from h d s l kv(1,2) c x a b show ?thesis by blast
qed

lemma initialize_class_degreesAgree:
  "initialize_class idxLevel tbasis emptyBasis = Inr st \<Longrightarrow> degreesAgree st"
  by (auto simp: initialize_class_def emptyBasis_def degreesAgree_def Let_def
        split: gsBasis.splits)

lemma construct_degreesAgree:
  "construct idxLevel tbasis = Inr st \<Longrightarrow> degreesAgree st"
  by (auto simp: construct_def split: sum.splits
        intro: update_structure_degreesAgree initialize_class_degreesAgree)

subsection \<open>Levels above the highest inserted level\<close>

lemma computeOffsets_const:
  "\<forall>k. i \<le> k \<and> k < length xs \<longrightarrow> xs ! k = [] \<Longrightarrow> i \<le> j \<Longrightarrow> j \<le> length xs
     \<Longrightarrow> computeOffsets xs ! j = computeOffsets xs ! i"
proof (induction j)
  case 0
  then show ?case by simp
next
  case (Suc j)
  show ?case
  proof (cases "i = Suc j")
    case True
    then show ?thesis by simp
  next
    case False
    with Suc.prems have ij: "i \<le> j" "j < length xs" by simp_all
    with Suc.prems(1) have "xs ! j = []" by simp
    with ij have "computeOffsets xs ! Suc j = computeOffsets xs ! j"
      by (simp add: computeOffsets_Suc)
    with Suc.IH [OF Suc.prems(1) ij(1)] ij(2) show ?thesis by simp
  qed
qed

lemma update_structure_above_max:
  assumes "update_structure st = Inr st'"
    and "i < length (m_xmatrix st')" and "getMaxInsLevel (m_tree st') < i"
  shows "m_xmatrix st' ! i = []"
  using assms(2,3) unfolding update_structure_Inr(4) [OF assms(1)]
  by (simp add: activeVector_def)

lemma update_structure_lengths:
  assumes "update_structure st = Inr st'"
  shows "length (m_xmatrix st') = length (m_bases st')"
  unfolding update_structure_Inr(4) [OF assms] by simp

lemma initialize_class_Inr:
  assumes "initialize_class idxLevel tbasis emptyBasis = Inr st"
  shows "length (m_bases st) = 3" and "getMaxInsLevel (m_tree st) = 0"
  using assms
  by (auto simp: initialize_class_def emptyBasis_def Let_def init_def getMaxInsLevel_def
        split: gsBasis.splits)

lemma construct_Inr:
  assumes "construct idxLevel tbasis = Inr st"
  shows "length (m_bases st) = 3" and "getMaxInsLevel (m_tree st) = 0"
    and "\<exists>st0. update_structure st0 = Inr st"
proof -
  from assms obtain st0 where i: "initialize_class idxLevel tbasis emptyBasis = Inr st0"
    and u: "update_structure st0 = Inr st"
    by (auto simp: construct_def split: sum.splits)
  from update_structure_Inr(1) [OF u] initialize_class_Inr [OF i]
  show "length (m_bases st) = 3"
    by (auto simp: needLevel_def)
  show "getMaxInsLevel (m_tree st) = 0"
    by (simp add: update_structure_Inr(2) [OF u] initialize_class_Inr(2) [OF i])
  from u show "\<exists>st0. update_structure st0 = Inr st" ..
qed

text \<open>
  C9. After \<^verbatim>\<open>update_structure\<close> there is one characteristic matrix for each stored basis,
  and a level above the highest inserted level of the tree has an empty matrix: it adds
  nothing to the offset table, whose entries from there on are the total size. A newly
  constructed basis stores three bases; its levels 1 and 2 are empty, so its size is the
  number of active functions of level 0.
\<close>

theorem empty_levels_above_max_inserted:
  "(update_structure st = Inr st' \<longrightarrow>
      length (m_xmatrix st') = length (m_bases st') \<and>
      (\<forall>i<length (m_xmatrix st'). getMaxInsLevel (m_tree st') < i \<longrightarrow>
         m_xmatrix st' ! i = [] \<and>
         m_xmatrix_offset st' ! (i + 1) = m_xmatrix_offset st' ! i \<and>
         m_xmatrix_offset st' ! i = last (m_xmatrix_offset st'))) \<and>
   (construct idxLevel tbasis = Inr st'' \<longrightarrow>
      length (m_bases st'') = 3 \<and> length (m_xmatrix st'') = 3 \<and>
      m_xmatrix st'' ! 1 = [] \<and> m_xmatrix st'' ! 2 = [] \<and>
      size_h st'' = Inr (int (length (m_xmatrix st'' ! 0))))"
proof (intro conjI impI allI)
  assume u: "update_structure st = Inr st'"
  show "length (m_xmatrix st') = length (m_bases st')"
    by (rule update_structure_lengths [OF u])
  fix i
  assume i: "i < length (m_xmatrix st')" and m: "getMaxInsLevel (m_tree st') < i"
  show e: "m_xmatrix st' ! i = []"
    by (rule update_structure_above_max [OF u i m])
  have off: "m_xmatrix_offset st' = computeOffsets (m_xmatrix st')"
    by (rule update_structure_Inr(5) [OF u])
  from i e show "m_xmatrix_offset st' ! (i + 1) = m_xmatrix_offset st' ! i"
    by (simp add: off computeOffsets_Suc)
  have "\<forall>k. i \<le> k \<and> k < length (m_xmatrix st') \<longrightarrow> m_xmatrix st' ! k = []"
    using m by (auto intro: update_structure_above_max [OF u])
  from computeOffsets_const [OF this, of "length (m_xmatrix st')"] i
  show "m_xmatrix_offset st' ! i = last (m_xmatrix_offset st')"
    by (simp add: off last_computeOffsets_nth)
next
  assume c: "construct idxLevel tbasis = Inr st''"
  from construct_Inr(3) [OF c] obtain st0 where u: "update_structure st0 = Inr st''" ..
  show b: "length (m_bases st'') = 3" by (rule construct_Inr(1) [OF c])
  with update_structure_lengths [OF u] show l: "length (m_xmatrix st'') = 3" by simp
  from l construct_Inr(2) [OF c] show e1: "m_xmatrix st'' ! 1 = []"
    by (intro update_structure_above_max [OF u]) simp_all
  from l construct_Inr(2) [OF c] show e2: "m_xmatrix st'' ! 2 = []"
    by (intro update_structure_above_max [OF u]) simp_all
  from l obtain a b c where x: "m_xmatrix st'' = [a, b, c]"
    by (auto simp: length_Suc_conv numeral_3_eq_3)
  with e1 e2 have "(\<Sum>x\<leftarrow>m_xmatrix st''. int (length x)) = int (length (m_xmatrix st'' ! 0))"
    by simp
  moreover have "m_xmatrix_offset st'' = computeOffsets (m_xmatrix st'')"
    by (rule update_structure_Inr(5) [OF u])
  moreover have "computeOffsets (m_xmatrix st'') \<noteq> []"
    using length_computeOffsets [of "m_xmatrix st''"] by auto
  ultimately show "size_h st'' = Inr (int (length (m_xmatrix st'' ! 0)))"
    by (simp add: size_h_def last_computeOffsets_sum)
qed

lemma construct_example: "construct 2 (TensorBasis exampleTensorBasis) = Inr exampleBasis"
  by (simp add: construct_def initialize_class_def emptyBasis_def exampleTensorBasis_def
       exampleBasis_def exampleLevels_def uniformRefine_tb_def init_def uSize_def
       update_structure_def needLevel_def getMaxInsLevel_def set_activ1_def
       makeCompressed_tree_def iterationEnds_def numFunctions_def query3_def
       local2globalIndex_def overlaps_def supportLow_def supportUpp_def uIndex_def
       index_def sizes_def computeOffsets_def upt_rec Let_def)

theorem empty_levels_above_max_inserted_witness:
  "update_structure exampleRefined = Inr exampleRefined \<and>
   length (m_xmatrix exampleRefined) = length (m_bases exampleRefined) \<and>
   (2::nat) < length (m_xmatrix exampleRefined) \<and>
   getMaxInsLevel (m_tree exampleRefined) < 2 \<and>
   m_xmatrix exampleRefined ! 2 = [] \<and>
   m_xmatrix_offset exampleRefined ! (2 + 1) = m_xmatrix_offset exampleRefined ! 2 \<and>
   m_xmatrix_offset exampleRefined ! 2 = last (m_xmatrix_offset exampleRefined) \<and>
   construct 2 (TensorBasis exampleTensorBasis) = Inr exampleBasis \<and>
   length (m_bases exampleBasis) = 3 \<and> length (m_xmatrix exampleBasis) = 3 \<and>
   m_xmatrix exampleBasis ! 1 = [] \<and> m_xmatrix exampleBasis ! 2 = [] \<and>
   size_h exampleBasis = Inr 3"
proof -
  have u: "update_structure exampleRefined = Inr exampleRefined"
    by (rule update_structure_example)
  have c: "construct 2 (TensorBasis exampleTensorBasis) = Inr exampleBasis"
    by (rule construct_example)
  have i: "(2::nat) < length (m_xmatrix exampleRefined)"
          "getMaxInsLevel (m_tree exampleRefined) < 2"
    by (simp_all add: exampleRefined_def getMaxInsLevel_def)
  have x: "m_xmatrix exampleBasis ! 0 = [0, 1, 2]"
    by (simp add: exampleBasis_def)
  from empty_levels_above_max_inserted
         [of exampleRefined exampleRefined 2 "TensorBasis exampleTensorBasis" exampleBasis]
       u c
  have "length (m_xmatrix exampleRefined) = length (m_bases exampleRefined) \<and>
        (\<forall>i<length (m_xmatrix exampleRefined). getMaxInsLevel (m_tree exampleRefined) < i \<longrightarrow>
           m_xmatrix exampleRefined ! i = [] \<and>
           m_xmatrix_offset exampleRefined ! (i + 1) = m_xmatrix_offset exampleRefined ! i \<and>
           m_xmatrix_offset exampleRefined ! i = last (m_xmatrix_offset exampleRefined))"
    and b: "length (m_bases exampleBasis) = 3 \<and> length (m_xmatrix exampleBasis) = 3 \<and>
        m_xmatrix exampleBasis ! 1 = [] \<and> m_xmatrix exampleBasis ! 2 = [] \<and>
        size_h exampleBasis = Inr (int (length (m_xmatrix exampleBasis ! 0)))"
    by blast+
  then have a: "length (m_xmatrix exampleRefined) = length (m_bases exampleRefined)"
    and "m_xmatrix exampleRefined ! 2 = [] \<and>
         m_xmatrix_offset exampleRefined ! (2 + 1) = m_xmatrix_offset exampleRefined ! 2 \<and>
         m_xmatrix_offset exampleRefined ! 2 = last (m_xmatrix_offset exampleRefined)"
    using i by blast+
  with b u c i x show ?thesis by simp
qed



subsection \<open>Flat tensor indices and hierarchical indices\<close>

lemma sorted_activeVector: "sorted (activeVector st i)"
  by (simp add: activeVector_def Let_def)

lemma update_structure_sorted:
  assumes "update_structure st = Inr st'" and "i < length (m_xmatrix st')"
  shows "sorted (m_xmatrix st' ! i)"
  using assms(2) unfolding update_structure_Inr(4) [OF assms(1)]
  by (simp add: sorted_activeVector)

lemma lower_bound_le: "lower_bound xs v \<le> length xs"
  by (simp add: lower_bound_def length_takeWhile_le)

lemma lower_bound_nth_ge:
  "lower_bound xs v < length xs \<Longrightarrow> v \<le> xs ! lower_bound xs v"
  unfolding lower_bound_def using nth_length_takeWhile [of "\<lambda>x. x < v" xs] by simp

lemma lower_bound_sorted_mem:
  assumes "sorted xs" and "v \<in> set xs"
  shows "lower_bound xs v < length xs \<and> xs ! lower_bound xs v = v"
proof -
  from assms(2) obtain n where n: "n < length xs" "xs ! n = v"
    by (auto simp: in_set_conv_nth)
  have le: "lower_bound xs v \<le> n"
  proof (rule ccontr)
    assume "\<not> lower_bound xs v \<le> n"
    then have "n < length (takeWhile (\<lambda>x. x < v) xs)" by (simp add: lower_bound_def)
    then have "takeWhile (\<lambda>x. x < v) xs ! n \<in> set (takeWhile (\<lambda>x. x < v) xs)"
      by (rule nth_mem)
    moreover have "takeWhile (\<lambda>x. x < v) xs ! n = xs ! n"
      using \<open>n < length (takeWhile (\<lambda>x. x < v) xs)\<close> by (rule takeWhile_nth)
    ultimately have "xs ! n < v" by (auto dest: set_takeWhileD)
    with n(2) show False by simp
  qed
  with n(1) have lt: "lower_bound xs v < length xs" by simp
  from assms(1) le n(1) have "xs ! lower_bound xs v \<le> xs ! n"
    by (simp add: sorted_nth_mono)
  with lower_bound_nth_ge [OF lt] n(2) show ?thesis using lt by simp
qed

lemma takeWhile_less_sorted:
  "sorted xs \<Longrightarrow> takeWhile (\<lambda>x. x < v) xs = filter (\<lambda>x. x < (v::nat)) xs"
proof (induction xs)
  case Nil
  then show ?case by simp
next
  case (Cons a xs)
  show ?case
  proof (cases "a < v")
    case True
    with Cons show ?thesis by simp
  next
    case False
    with Cons.prems have "\<forall>x\<in>set xs. \<not> x < v" by auto
    then have "filter (\<lambda>x. x < v) xs = []" by (simp add: filter_empty_conv)
    with False show ?thesis by simp
  qed
qed

lemma wrapInt_id: "- (2 ^ 31) \<le> v \<Longrightarrow> v < 2 ^ 31 \<Longrightarrow> wrapInt v = v"
proof (cases "0 \<le> v")
  case True
  assume "v < 2 ^ 31"
  with True have "v mod 4294967296 = v" by simp
  with \<open>v < 2 ^ 31\<close> show ?thesis by (simp add: wrapInt_def)
next
  case False
  assume "- (2 ^ 31) \<le> v"
  with False have a: "(v + 4294967296) mod 4294967296 = v + 4294967296"
    by (intro mod_pos_pos_trivial) simp_all
  have b: "(v + 4294967296) mod 4294967296 = v mod 4294967296" by simp
  from a [unfolded b] \<open>- (2 ^ 31) \<le> v\<close> False show ?thesis by (simp add: wrapInt_def)
qed

text \<open>
  C8. For a valid level, whose characteristic matrix is sorted,
  \<^verbatim>\<open>flatTensorIndexToHierachicalIndex\<close> returns \<open>-1\<close> when the flat index is not active at
  the level. When it is active, the result is the offset of the level plus the position
  (rank) of the flat index in the matrix, narrowed to the \<^verbatim>\<open>int\<close> that the function
  returns: it is that sum itself whenever the hierarchical indices of the level fit an
  \<^verbatim>\<open>int\<close>.
\<close>

theorem flatTensorIndexToHierachicalIndex_result:
  assumes "0 \<le> level" and "level < 2 ^ 31"
    and "nat level < length (m_xmatrix st)"
    and "nat level < length (m_xmatrix_offset st)"
    and "sorted (m_xmatrix st ! nat level)"
  shows "(idx \<in> set (m_xmatrix st ! nat level) \<longrightarrow>
            (\<exists>r<length (m_xmatrix st ! nat level).
               m_xmatrix st ! nat level ! r = idx \<and>
               r = length (filter (\<lambda>x. x < idx) (m_xmatrix st ! nat level)) \<and>
               flatTensorIndexToHierachicalIndex st idx level =
                 Inr (wrapInt (m_xmatrix_offset st ! nat level + int r)) \<and>
               (- (2 ^ 31) \<le> m_xmatrix_offset st ! nat level \<and>
                m_xmatrix_offset st ! nat level + int (length (m_xmatrix st ! nat level))
                  \<le> 2 ^ 31 \<longrightarrow>
                flatTensorIndexToHierachicalIndex st idx level =
                  Inr (m_xmatrix_offset st ! nat level + int r)))) \<and>
         (idx \<notin> set (m_xmatrix st ! nat level) \<longrightarrow>
            flatTensorIndexToHierachicalIndex st idx level = Inr (- 1))"
proof -
  let ?xs = "m_xmatrix st ! nat level"
  let ?off = "m_xmatrix_offset st ! nat level"
  from assms(1,2) have m32: "level mod 4294967296 = level"
    and m64: "level mod 18446744073709551616 = level"
    by simp_all
  from assms(1,3) have g: "\<not> int (length (m_xmatrix st)) \<le> level" by linarith
  have tw: "takeWhile (\<lambda>x. x < idx) ?xs = filter (\<lambda>x. x < idx) ?xs"
    by (rule takeWhile_less_sorted [OF assms(5)])
  show ?thesis
  proof (intro conjI impI)
    assume "idx \<in> set ?xs"
    from lower_bound_sorted_mem [OF assms(5) this]
    have lb: "lower_bound ?xs idx < length ?xs" "?xs ! lower_bound ?xs idx = idx" by simp_all
    have r: "flatTensorIndexToHierachicalIndex st idx level =
            Inr (wrapInt (?off + int (lower_bound ?xs idx)))"
      using g assms(3,4) lb
      by (simp add: flatTensorIndexToHierachicalIndex_def m32 m64 Let_def)
    have "wrapInt (?off + int (lower_bound ?xs idx)) = ?off + int (lower_bound ?xs idx)"
      if "- (2 ^ 31) \<le> ?off \<and> ?off + int (length ?xs) \<le> 2 ^ 31"
      using that lb(1) by (intro wrapInt_id) linarith+
    with r lb have "lower_bound ?xs idx < length ?xs \<and> ?xs ! lower_bound ?xs idx = idx \<and>
               flatTensorIndexToHierachicalIndex st idx level =
                 Inr (wrapInt (?off + int (lower_bound ?xs idx))) \<and>
               (- (2 ^ 31) \<le> ?off \<and> ?off + int (length ?xs) \<le> 2 ^ 31 \<longrightarrow>
                flatTensorIndexToHierachicalIndex st idx level =
                  Inr (?off + int (lower_bound ?xs idx)))"
      by simp
    moreover have "lower_bound ?xs idx = length (filter (\<lambda>x. x < idx) ?xs)"
      by (simp add: lower_bound_def tw)
    ultimately show "\<exists>r<length ?xs. ?xs ! r = idx \<and>
               r = length (filter (\<lambda>x. x < idx) ?xs) \<and>
               flatTensorIndexToHierachicalIndex st idx level = Inr (wrapInt (?off + int r)) \<and>
               (- (2 ^ 31) \<le> ?off \<and> ?off + int (length ?xs) \<le> 2 ^ 31 \<longrightarrow>
                flatTensorIndexToHierachicalIndex st idx level = Inr (?off + int r))"
      by metis
  next
    assume n: "idx \<notin> set ?xs"
    have "lower_bound ?xs idx = length ?xs \<or> ?xs ! lower_bound ?xs idx \<noteq> idx"
    proof (cases "lower_bound ?xs idx = length ?xs")
      case True
      then show ?thesis by simp
    next
      case False
      with lower_bound_le [of ?xs idx] have "lower_bound ?xs idx < length ?xs" by simp
      then have "?xs ! lower_bound ?xs idx \<in> set ?xs" by (rule nth_mem)
      with n show ?thesis by auto
    qed
    then show "flatTensorIndexToHierachicalIndex st idx level = Inr (- 1)"
      using g assms(3)
      by (auto simp: flatTensorIndexToHierachicalIndex_def m32 m64 Let_def)
  qed
qed

theorem flatTensorIndexToHierachicalIndex_result_witness:
  "(0::int) \<le> 1 \<and> (1::int) < 2 ^ 31 \<and> nat 1 < length (m_xmatrix exampleRefined) \<and>
   nat 1 < length (m_xmatrix_offset exampleRefined) \<and>
   sorted (m_xmatrix exampleRefined ! nat 1) \<and>
   0 \<in> set (m_xmatrix exampleRefined ! nat 1) \<and>
   - (2 ^ 31) \<le> m_xmatrix_offset exampleRefined ! nat 1 \<and>
   m_xmatrix_offset exampleRefined ! nat 1 + int (length (m_xmatrix exampleRefined ! nat 1))
     \<le> 2 ^ 31 \<and>
   flatTensorIndexToHierachicalIndex exampleRefined 0 1 = Inr 3 \<and>
   1 \<notin> set (m_xmatrix exampleRefined ! nat 1) \<and>
   flatTensorIndexToHierachicalIndex exampleRefined 1 1 = Inr (- 1)"
proof -
  have e: "m_xmatrix exampleRefined ! nat 1 = [0]" "m_xmatrix_offset exampleRefined ! nat 1 = 3"
    "nat 1 < length (m_xmatrix exampleRefined)"
    "nat 1 < length (m_xmatrix_offset exampleRefined)"
    by (simp_all add: exampleRefined_def)
  have s: "sorted (m_xmatrix exampleRefined ! nat 1)"
    by (subst e) simp
  from flatTensorIndexToHierachicalIndex_result [OF _ _ e(3) e(4) s, of 0]
       flatTensorIndexToHierachicalIndex_result [OF _ _ e(3) e(4) s, of 1]
  show ?thesis using e by (simp add: wrapInt_def)
qed

text \<open>
  Beyond the range of \<^verbatim>\<open>int\<close> the result is not the sum: with the offset \<open>2^31 - 1\<close> the
  second function of the level gets the index \<open>-2^31\<close>.
\<close>

lemma flatTensorIndexToHierachicalIndex_wraps:
  "flatTensorIndexToHierachicalIndex
     (exampleRefined\<lparr>m_xmatrix := [[5, 7]], m_xmatrix_offset := [2147483647, 2147483649]\<rparr>)
     7 0 = Inr (- 2147483648)"
  by (simp add: flatTensorIndexToHierachicalIndex_def lower_bound_def wrapInt_def)

text \<open>The batch form on the example: the indices 1 and 4 are active at level 0.\<close>

lemma flatTensorIndexesToHierachicalIndexes_example:
  "flatTensorIndexesToHierachicalIndexes exampleUniform [0, 1, 4, 7] 0 = Inr [- 1, 0, 3, - 1]"
  by (simp add: flatTensorIndexesToHierachicalIndexes_def exampleUniform_def castInt_def
        wrapInt_def)

text \<open>
  C7 as stated fails: with a level beyond the stored levels the single-index form does
  not stop at an assertion, it returns \<open>-1\<close>.
\<close>

theorem level_out_of_range_counterexample:
  "\<not> 5 < int (length (m_xmatrix exampleRefined)) \<and>
   flatTensorIndexToHierachicalIndex exampleRefined 0 5 = Inr (- 1) \<and>
   flatTensorIndexToHierachicalIndex exampleRefined 0 5 \<noteq>
     Inl (AssertionFailed ''Requested level does not exist.'')"
  by (simp add: flatTensorIndexToHierachicalIndex_def exampleRefined_def)

text \<open>
  C7, amended. With a level that is not smaller than the number of stored levels the batch
  form \<^verbatim>\<open>flatTensorIndexesToHierachicalIndexes\<close> stops at its assertion, and the
  single-index form \<^verbatim>\<open>flatTensorIndexToHierachicalIndex\<close> returns the sentinel \<open>-1\<close>.
\<close>

theorem level_out_of_range:
  assumes "int (length (m_xmatrix st)) \<le> level" and "level < 2 ^ 31"
  shows "flatTensorIndexesToHierachicalIndexes st indexes level =
           Inl (AssertionFailed ''Requested level does not exist.'') \<and>
         flatTensorIndexToHierachicalIndex st idx level = Inr (- 1)"
proof -
  from assms have "0 \<le> level" by linarith
  with assms(2) have m32: "level mod 4294967296 = level"
    and m64: "level mod 18446744073709551616 = level"
    by simp_all
  from assms(1) \<open>0 \<le> level\<close> have "\<not> nat level < length (m_xmatrix st)" by linarith
  with assms(1) show ?thesis
    by (simp add: flatTensorIndexesToHierachicalIndexes_def
          flatTensorIndexToHierachicalIndex_def m32 m64 Let_def)
qed

theorem level_out_of_range_witness:
  "int (length (m_xmatrix exampleRefined)) \<le> 3 \<and> (3::int) < 2 ^ 31 \<and>
   flatTensorIndexesToHierachicalIndexes exampleRefined [0, 1] 3 =
     Inl (AssertionFailed ''Requested level does not exist.'') \<and>
   flatTensorIndexToHierachicalIndex exampleRefined 0 3 = Inr (- 1)"
proof -
  have l: "int (length (m_xmatrix exampleRefined)) \<le> 3"
    by (simp add: exampleRefined_def)
  have b: "(3::int) < 2 ^ 31" by simp
  from level_out_of_range [OF l b, of "[0, 1]" 0] l show ?thesis by simp
qed



subsection \<open>Compression\<close>

declare makeCompressed.simps [simp del]

lemma update_structure_exampleCoarseEmpty:
  "update_structure exampleCoarseEmpty = Inr exampleCoarseEmpty"
  by (simp add: exampleCoarseEmpty_def exampleLevels_def
       update_structure_def needLevel_def getMaxInsLevel_def set_activ1_def
       makeCompressed_tree_def iterationEnds_def numFunctions_def query3_def
       local2globalIndex_def overlaps_def supportLow_def supportUpp_def uIndex_def
       index_def sizes_def computeOffsets_def upt_rec Let_def)

text \<open>
  C4 as stated fails: \<^verbatim>\<open>makeCompressed\<close> removes the coarsest level when its active set is
  empty, and keeps the empty level at the tail.
\<close>

theorem makeCompressed_counterexample:
  "m_xmatrix exampleCoarseEmpty = [[], [0, 1, 2, 3, 4], []] \<and>
   makeCompressed exampleCoarseEmpty = Inr exampleCompressed \<and>
   m_xmatrix exampleCompressed = [[0, 1, 2, 3, 4], []]"
proof -
  have "makeCompressed exampleCoarseEmpty = makeCompressed exampleCompressed"
    by (subst makeCompressed.simps)
       (simp add: exampleCoarseEmpty_def exampleCompressed_def exampleLevels_def
          decrementLevel_def)
  also have "\<dots> = Inr exampleCompressed"
    by (subst makeCompressed.simps) (simp add: exampleCompressed_def)
  finally show ?thesis
    by (simp add: exampleCoarseEmpty_def exampleCompressed_def)
qed

lemma computeOffsets_Cons:
  "computeOffsets (x # xs) = 0 # map (\<lambda>off. off + int (length x)) (computeOffsets xs)"
proof (induction xs rule: rev_induct)
  case Nil
  then show ?case by (simp add: computeOffsets_def)
next
  case (snoc y xs)
  have ne: "computeOffsets xs \<noteq> []"
    using length_computeOffsets [of xs] by auto
  have "computeOffsets (x # xs @ [y]) =
          computeOffsets (x # xs) @ [last (computeOffsets (x # xs)) + int (length y)]"
    using computeOffsets_snoc [of "x # xs" y] by simp
  also have "\<dots> = 0 # map (\<lambda>off. off + int (length x))
                        (computeOffsets xs @ [last (computeOffsets xs) + int (length y)])"
    using ne by (simp add: snoc.IH last_map)
  finally show ?case by (simp add: computeOffsets_snoc)
qed

lemma makeCompressed_leading:
  "m_xmatrix st = xs \<Longrightarrow> m_xmatrix_offset st = computeOffsets xs
     \<Longrightarrow> length (m_bases st) = length xs \<Longrightarrow> \<exists>x\<in>set xs. x \<noteq> []
     \<Longrightarrow> \<exists>st'. makeCompressed st = Inr st' \<and>
           m_xmatrix st' = dropWhile (\<lambda>x. x = []) xs \<and>
           m_bases st' = drop (length (takeWhile (\<lambda>x. x = []) xs)) (m_bases st) \<and>
           m_tree st' = (decrementLevel ^^ length (takeWhile (\<lambda>x. x = []) xs)) (m_tree st) \<and>
           m_xmatrix_offset st' = computeOffsets (m_xmatrix st')"
proof (induction xs arbitrary: st)
  case Nil
  then show ?case by simp
next
  case (Cons x xs)
  have len: "\<not> length (m_xmatrix_offset st) < 2"
    by (simp add: Cons.prems(2) length_computeOffsets)
  have o1: "m_xmatrix_offset st ! 1 = int (length x)"
    using computeOffsets_Suc [of 0 "x # xs"]
    by (simp add: Cons.prems(2) computeOffsets_0)
  show ?case
  proof (cases "x = []")
    case False
    with len o1 have "makeCompressed st = Inr st"
      by (simp add: makeCompressed.simps [of st])
    with False Cons.prems show ?thesis by simp
  next
    case True
    let ?st = "st\<lparr>m_bases := tl (m_bases st), m_tree := decrementLevel (m_tree st),
                   m_xmatrix := tl (m_xmatrix st),
                   m_xmatrix_offset := tl (m_xmatrix_offset st)\<rparr>"
    from Cons.prems(3) have bs: "m_bases st \<noteq> []" by auto
    from len o1 True bs Cons.prems(1)
    have step: "makeCompressed st = makeCompressed ?st"
      by (simp add: makeCompressed.simps [of st])
    have "\<exists>st'. makeCompressed ?st = Inr st' \<and>
           m_xmatrix st' = dropWhile (\<lambda>x. x = []) xs \<and>
           m_bases st' = drop (length (takeWhile (\<lambda>x. x = []) xs)) (m_bases ?st) \<and>
           m_tree st' = (decrementLevel ^^ length (takeWhile (\<lambda>x. x = []) xs)) (m_tree ?st) \<and>
           m_xmatrix_offset st' = computeOffsets (m_xmatrix st')"
    proof (rule Cons.IH)
      show "m_xmatrix ?st = xs" by (simp add: Cons.prems(1))
      show "m_xmatrix_offset ?st = computeOffsets xs"
        by (simp add: Cons.prems(2) True computeOffsets_Cons)
      show "length (m_bases ?st) = length xs"
        using Cons.prems(3) by simp
      show "\<exists>x\<in>set xs. x \<noteq> []"
        using Cons.prems(4) True by simp
    qed
    then show ?thesis
      unfolding step using True by (simp add: drop_Suc funpow_swap1)
  qed
qed

text \<open>
  C4, amended. \<^verbatim>\<open>makeCompressed\<close> removes empty levels from the front only: on a structure
  with consistent offsets and some active function it returns, the leading levels whose
  active sets are empty are gone, with their bases and offsets and one tree level each,
  and every level from the first non-empty one on is kept, also the empty ones.
\<close>

theorem makeCompressed_removes_leading_empty_levels:
  assumes "m_xmatrix_offset st = computeOffsets (m_xmatrix st)"
    and "length (m_bases st) = length (m_xmatrix st)"
    and "\<exists>x\<in>set (m_xmatrix st). x \<noteq> []"
  shows "\<exists>st'. makeCompressed st = Inr st' \<and>
           m_xmatrix st' = dropWhile (\<lambda>x. x = []) (m_xmatrix st) \<and>
           m_bases st' =
             drop (length (takeWhile (\<lambda>x. x = []) (m_xmatrix st))) (m_bases st) \<and>
           m_tree st' =
             (decrementLevel ^^ length (takeWhile (\<lambda>x. x = []) (m_xmatrix st))) (m_tree st) \<and>
           m_xmatrix_offset st' = computeOffsets (m_xmatrix st')"
  using makeCompressed_leading [OF refl assms] .

theorem makeCompressed_removes_leading_empty_levels_witness:
  "m_xmatrix_offset exampleCoarseEmpty = computeOffsets (m_xmatrix exampleCoarseEmpty) \<and>
   length (m_bases exampleCoarseEmpty) = length (m_xmatrix exampleCoarseEmpty) \<and>
   (\<exists>x\<in>set (m_xmatrix exampleCoarseEmpty). x \<noteq> []) \<and>
   (\<exists>st'. makeCompressed exampleCoarseEmpty = Inr st' \<and>
      m_xmatrix st' = [[0, 1, 2, 3, 4], []] \<and> m_bases st' = tl exampleLevels \<and>
      m_tree st' = decrementLevel (m_tree exampleCoarseEmpty) \<and>
      m_xmatrix_offset st' = [0, 5, 5])"
proof -
  have a: "m_xmatrix_offset exampleCoarseEmpty = computeOffsets (m_xmatrix exampleCoarseEmpty)"
    by (simp add: exampleCoarseEmpty_def computeOffsets_def)
  have b: "length (m_bases exampleCoarseEmpty) = length (m_xmatrix exampleCoarseEmpty)"
    by (simp add: exampleCoarseEmpty_def exampleLevels_def)
  have c: "\<exists>x\<in>set (m_xmatrix exampleCoarseEmpty). x \<noteq> []"
    by (simp add: exampleCoarseEmpty_def)
  have x: "m_xmatrix exampleCoarseEmpty = [[], [0, 1, 2, 3, 4], []]"
          "m_bases exampleCoarseEmpty = exampleLevels"
    by (simp_all add: exampleCoarseEmpty_def)
  have o: "computeOffsets [[0, 1, 2, 3, 4], []] = [0, 5, 5]"
    by (simp add: computeOffsets_def)
  from makeCompressed_removes_leading_empty_levels [OF a b c]
  obtain st' where s: "makeCompressed exampleCoarseEmpty = Inr st'"
    "m_xmatrix st' = dropWhile (\<lambda>x. x = []) (m_xmatrix exampleCoarseEmpty)"
    "m_bases st' = drop (length (takeWhile (\<lambda>x. x = []) (m_xmatrix exampleCoarseEmpty)))
                     (m_bases exampleCoarseEmpty)"
    "m_tree st' = (decrementLevel ^^ length (takeWhile (\<lambda>x. x = [])
                     (m_xmatrix exampleCoarseEmpty))) (m_tree exampleCoarseEmpty)"
    "m_xmatrix_offset st' = computeOffsets (m_xmatrix st')"
    by blast
  have s2: "m_xmatrix st' = [[0, 1, 2, 3, 4], []]"
    using s(2) by (simp add: x)
  have s3: "m_bases st' = tl exampleLevels"
    using s(3) by (simp add: x drop_Suc)
  have s4: "m_tree st' = decrementLevel (m_tree exampleCoarseEmpty)"
    using s(4) by (simp add: x)
  have s5: "m_xmatrix_offset st' = [0, 5, 5]"
    using s(5) by (simp only: s2 o)
  from s(1) s2 s3 s4 s5
  have "\<exists>st'. makeCompressed exampleCoarseEmpty = Inr st' \<and>
      m_xmatrix st' = [[0, 1, 2, 3, 4], []] \<and> m_bases st' = tl exampleLevels \<and>
      m_tree st' = decrementLevel (m_tree exampleCoarseEmpty) \<and>
      m_xmatrix_offset st' = [0, 5, 5]"
    by blast
  with a b c show ?thesis by blast
qed



subsection \<open>The levels after a transfer\<close>

declare dropEmptyBack.simps [simp del]

lemma length_extendLevels: "length (extendLevels n bs) = length bs + n"
  by (induction n arbitrary: bs) simp_all

lemma needLevel_length:
  "needLevel n bs = Inr bs' \<Longrightarrow> length bs' = max (length bs) (Suc n)"
  by (auto simp: needLevel_def Let_def length_extendLevels split: if_splits)

lemma dropEmptyBack_Inr:
  "dropEmptyBack xm = Inr xm' \<Longrightarrow> xm' \<noteq> [] \<and> last xm' \<noteq> [] \<and> length xm' \<le> length xm"
proof (induction xm rule: dropEmptyBack.induct)
  case (1 xm)
  show ?case
  proof (cases "xm = []")
    case True
    with "1.prems" show ?thesis by (simp add: dropEmptyBack.simps [of "[]"])
  next
    case False
    show ?thesis
    proof (cases "last xm = []")
      case True
      with False "1.prems" have "dropEmptyBack (butlast xm) = Inr xm'"
        by (simp add: dropEmptyBack.simps [of xm])
      with "1.IH" [OF False True] show ?thesis by auto
    next
      case nonempty: False
      with False "1.prems" have "xm' = xm"
        by (simp add: dropEmptyBack.simps [of xm])
      with False nonempty show ?thesis by simp
    qed
  qed
qed

lemma transfer_prunes:
  assumes "transfer K old st = Inr (r, st')"
    and "length (m_xmatrix st) \<le> length (m_bases st)"
  shows "length (m_bases st') = length (m_xmatrix st') \<and> m_xmatrix st' \<noteq> [] \<and>
         last (m_xmatrix st') \<noteq> []"
proof -
  from assms(1) obtain bs xm'
    where nl: "needLevel (length old) (m_bases st) = Inr bs"
      and de: "dropEmptyBack (addMissing (length old) (m_xmatrix st)) = Inr xm'"
      and st': "st' = st\<lparr>m_bases := (if int (length bs) - int (length xm') > 0
                                        then take (length xm') bs else bs),
                          m_xmatrix := xm'\<rparr>"
    by (auto simp: transfer_def Let_def split: sum.splits)
  have "length (addMissing (length old) (m_xmatrix st)) \<le> length bs"
    using needLevel_length [OF nl] assms(2) by (auto simp: addMissing_def)
  with dropEmptyBack_Inr [OF de] have "length xm' \<le> length bs" by simp
  with dropEmptyBack_Inr [OF de] show ?thesis
    by (auto simp: st')
qed

text \<open>
  C5. \<^verbatim>\<open>transfer\<close> ends with the characteristic matrices and the bases pruned to the same
  length (\<open>transfer_prunes\<close>). \<^verbatim>\<open>transfer2\<close> adds the missing empty matrices and never drops
  them: on the example basis, with its own active sets as the old ones, it returns four
  levels of which the last three are empty.
\<close>

theorem transfer2_keeps_empty_levels:
  "\<exists>r st'. transfer2 K (m_xmatrix exampleBasis) exampleBasis = Inr (r, st') \<and>
      m_xmatrix st' = [[0, 1, 2], [], [], []] \<and> length (m_bases st') = 4"
  by (simp add: transfer2_def needLevel_def addMissing_def exampleBasis_def
        exampleLevels_def Let_def)

lemma transfer_drops_empty_levels:
  "\<exists>r st'. transfer K (m_xmatrix exampleBasis) exampleBasis = Inr (r, st') \<and>
      m_xmatrix st' = [[0, 1, 2]] \<and> length (m_bases st') = 1"
proof -
  have "dropEmptyBack [[0, Suc 0, 2], [], [], []] = dropEmptyBack [[0, Suc 0, 2], [], []]"
    by (subst dropEmptyBack.simps) simp
  also have "\<dots> = dropEmptyBack [[0, Suc 0, 2], []]"
    by (subst dropEmptyBack.simps) simp
  also have "\<dots> = dropEmptyBack [[0, Suc 0, 2]]"
    by (subst dropEmptyBack.simps) simp
  also have "\<dots> = Inr [[0, Suc 0, 2]]"
    by (subst dropEmptyBack.simps) simp
  finally have d: "dropEmptyBack [[0, Suc 0, 2], [], [], []] = Inr [[0, Suc 0, 2]]" .
  show ?thesis
    by (simp add: transfer_def needLevel_def addMissing_def exampleBasis_def
          exampleLevels_def Let_def d)
qed



subsection \<open>update\_structure returns\<close>

lemma lexGrid_empty_iff: "lexGrid ns = [] \<longleftrightarrow> 0 \<in> set ns"
  by (induction ns) auto

lemma length_refineKnots: "length ks \<le> length (refineKnots mul ks)"
  by (induction mul ks rule: refineKnots.induct) auto

lemma hasFunctions_uniformRefine_tb:
  assumes "hasFunctions deg b"
  shows "hasFunctions deg (uniformRefine_tb mul b)"
proof -
  have "0 < n" if "n \<in> set (iterationEnds deg (uniformRefine_tb mul b))" for n
  proof -
    from that obtain d ks where z: "(d, ks) \<in> set (zip deg (knotVectors b))"
      and n: "n = numFunctions d (refineKnots mul ks)"
      by (auto simp: iterationEnds_def uniformRefine_tb_def zip_map2)
    from z have "numFunctions d ks \<in> set (iterationEnds deg b)"
      by (force simp: iterationEnds_def)
    with assms have "0 < numFunctions d ks"
      by (auto simp: hasFunctions_def lexGrid_empty_iff intro: ccontr)
    with length_refineKnots [of ks mul] show ?thesis
      by (simp add: n numFunctions_def)
  qed
  then show ?thesis
    by (auto simp: hasFunctions_def lexGrid_empty_iff)
qed

lemma extendLevels_hasFunctions:
  "bs \<noteq> [] \<Longrightarrow> list_all (hasFunctions deg) bs
     \<Longrightarrow> list_all (hasFunctions deg) (extendLevels n bs)"
proof (induction n arbitrary: bs)
  case 0
  then show ?case by simp
next
  case (Suc n)
  from Suc.prems have "hasFunctions deg (last bs)"
    by (simp add: list_all_iff)
  with Suc.prems
  have "list_all (hasFunctions deg) (bs @ [uniformRefine_tb 1 (last bs)])"
    by (simp add: hasFunctions_uniformRefine_tb)
  with Suc.IH [of "bs @ [uniformRefine_tb 1 (last bs)]"] show ?case by simp
qed

lemma needLevel_total:
  "bs \<noteq> [] \<Longrightarrow> \<exists>bs'. needLevel n bs = Inr bs'"
  by (simp add: needLevel_def Let_def)

lemma needLevel_hasFunctions:
  "needLevel n bs = Inr bs' \<Longrightarrow> list_all (hasFunctions deg) bs
     \<Longrightarrow> list_all (hasFunctions deg) bs'"
  by (auto simp: needLevel_def Let_def extendLevels_hasFunctions split: if_splits)

lemma set_activ1_total:
  assumes "level < length (m_xmatrix st)" and "level < length (m_bases st)"
    and "list_all (hasFunctions (m_deg st)) (m_bases st)"
  shows "set_activ1 level st =
           Inr (st\<lparr>m_xmatrix := (m_xmatrix st)[level := activeVector st level]\<rparr>)"
proof -
  from assms(2,3) have "lexGrid (iterationEnds (m_deg st) (m_bases st ! level)) \<noteq> []"
    by (simp add: list_all_length hasFunctions_def)
  with assms(1,2) show ?thesis
    by (simp add: set_activ1_def activeVector_def Let_def)
qed

lemma set_activ_levels_total:
  "\<forall>l\<in>set ls. l < length (m_xmatrix st) \<and> l < length (m_bases st)
     \<Longrightarrow> list_all (hasFunctions (m_deg st)) (m_bases st)
     \<Longrightarrow> \<exists>st'. set_activ_levels ls st = Inr st'"
proof (induction ls arbitrary: st)
  case Nil
  then show ?case by simp
next
  case (Cons l ls)
  let ?st = "st\<lparr>m_xmatrix := (m_xmatrix st)[l := activeVector st l]\<rparr>"
  from Cons.prems have s: "set_activ1 l st = Inr ?st"
    by (intro set_activ1_total) simp_all
  from Cons.prems have "\<exists>st'. set_activ_levels ls ?st = Inr st'"
    by (intro Cons.IH) simp_all
  with s show ?case by simp
qed

lemma update_structure_total:
  assumes "m_bases st \<noteq> []" and "list_all (hasFunctions (m_deg st)) (m_bases st)"
  shows "\<exists>st'. update_structure st = Inr st'"
proof -
  from needLevel_total [OF assms(1)] obtain bs
    where nl: "needLevel (getMaxInsLevel (m_tree st)) (m_bases st) = Inr bs" by blast
  let ?s0 = "st\<lparr>m_bases := bs, m_xmatrix := replicate (length bs) [],
                   m_tree := makeCompressed_tree (m_tree st)\<rparr>"
  have "\<exists>st'. set_activ_levels [0..<length bs] ?s0 = Inr st'"
    using needLevel_hasFunctions [OF nl assms(2)]
    by (intro set_activ_levels_total) simp_all
  with nl show ?thesis
    by (auto simp: update_structure_def)
qed

lemma construct_total:
  assumes "hasFunctions (degrees tb) tb"
  shows "\<exists>st. construct idxLevel (TensorBasis tb) = Inr st"
proof -
  let ?b1 = "uniformRefine_tb 1 tb"
  let ?b2 = "uniformRefine_tb 1 ?b1"
  let ?st = "emptyBasis\<lparr>m_deg := degrees tb, m_bases := [tb, ?b1, ?b2],
               m_tree := init idxLevel
                 (map (\<lambda>ks. if uSize ks = 0 then 2 ^ 32 - 1 else uSize ks - 1)
                    (knotVectors tb))\<rparr>"
  have i: "initialize_class idxLevel (TensorBasis tb) emptyBasis = Inr ?st"
    by (simp add: initialize_class_def emptyBasis_def Let_def)
  have "\<exists>st'. update_structure ?st = Inr st'"
    using assms by (intro update_structure_total) (simp_all add: hasFunctions_uniformRefine_tb)
  with i show ?thesis by (simp add: construct_def)
qed

subsection \<open>Uniform refinement\<close>

lemma getMaxInsLevel_multiplyByTwo [simp]:
  "getMaxInsLevel (multiplyByTwo t) = getMaxInsLevel t"
  by (simp add: getMaxInsLevel_def multiplyByTwo_def)

lemma refine_exampleSmallBox:
  "refine \<lparr>rows = 1, columns = [[0], [1 / 16]]\<rparr> exampleBasis = Inr exampleSmallBox"
  by (simp add: refine_def refineBox_def sunkBox_def supportOf_def
       exampleBasis_def exampleSmallBox_def exampleLevels_def
       cornerIndices_def upper_bound_def uniqueKnots_def domainUBegin_def domainUEnd_def
       trivialBox_def sinkBox_def
       update_structure_def needLevel_def getMaxInsLevel_def set_activ1_def
       makeCompressed_tree_def iterationEnds_def numFunctions_def query3_def
       local2globalIndex_def overlaps_def supportLow_def supportUpp_def uIndex_def
       index_def sizes_def computeOffsets_def upt_rec Let_def)

lemma transfer_exampleSmallBox:
  "\<exists>r. transfer K (m_xmatrix exampleBasis) exampleSmallBox = Inr (r, examplePruned)"
proof -
  have "dropEmptyBack [[0, Suc 0, 2], [], [], []] = dropEmptyBack [[0, Suc 0, 2], [], []]"
    by (subst dropEmptyBack.simps) simp
  also have "\<dots> = dropEmptyBack [[0, Suc 0, 2], []]"
    by (subst dropEmptyBack.simps) simp
  also have "\<dots> = dropEmptyBack [[0, Suc 0, 2]]"
    by (subst dropEmptyBack.simps) simp
  also have "\<dots> = Inr [[0, Suc 0, 2]]"
    by (subst dropEmptyBack.simps) simp
  finally have d: "dropEmptyBack [[0, Suc 0, 2], [], [], []] = Inr [[0, Suc 0, 2]]" .
  show ?thesis
    by (simp add: transfer_def needLevel_def addMissing_def exampleBasis_def
          exampleSmallBox_def examplePruned_def exampleLevels_def exampleTensorBasis_def
          Let_def d)
qed







subsection \<open>Trivial boxes\<close>

lemma boxIndices_adjust:
  "boxIndices (\<lambda>k. k) b lo hi js = Inr (r1, r2)
     \<Longrightarrow> length r1 = length js \<and> length r2 = length js \<and>
         boxIndices adj b lo hi js = Inr (map (fst \<circ> adj) (zip r1 r2), map (snd \<circ> adj) (zip r1 r2))"
proof (induction js arbitrary: r1 r2)
  case Nil
  then show ?case by simp
next
  case (Cons j js)
  from Cons.prems obtain k s1 s2
    where k: "cornerIndices (degrees b ! j) (knotVectors b ! j) (lo ! j) (hi ! j) = Inr k"
      and s: "boxIndices (\<lambda>k. k) b lo hi js = Inr (s1, s2)"
      and r: "r1 = fst k # s1" "r2 = snd k # s2"
    by (auto split: sum.splits)
  from Cons.IH [OF s] k show ?case
    by (simp add: r)
qed

lemma construct_example2:
  "construct 2 (TensorBasis exampleTensorBasis2) = Inr exampleBasis2"
  by (simp add: construct_def initialize_class_def emptyBasis_def exampleTensorBasis2_def
       exampleBasis2_def uniformRefine_tb_def init_def uSize_def
       update_structure_def needLevel_def getMaxInsLevel_def set_activ1_def
       makeCompressed_tree_def iterationEnds_def numFunctions_def query3_def
       local2globalIndex_def overlaps_def supportLow_def supportUpp_def uIndex_def
       index_def sizes_def computeOffsets_def upt_rec Let_def)

text \<open>
  C6 as stated fails in two ways. At the lower end of the domain the box from 0 to 1/16 lies
  in the first cell of the finest level, both corners have the knot index 0, and the box
  that is sunk reaches from index 0 to index 1: it grew by one cell upwards and by none
  downwards. And the request is a no-op for the basis: \<^verbatim>\<open>refine\<close> changes the tree, but the
  active sets and the offsets are the ones from before.
\<close>

theorem refine_trivial_box_counterexample:
  "rawBox exampleBasis [0] [1 / 16] = Inr ([0], [0]) \<and>
   sunkBox exampleBasis [0] [1 / 16] = Inr ([0], [1]) \<and>
   refine \<lparr>rows = 1, columns = [[0], [1 / 16]]\<rparr> exampleBasis = Inr exampleSmallBox \<and>
   m_xmatrix exampleSmallBox = m_xmatrix exampleBasis \<and>
   m_xmatrix_offset exampleSmallBox = m_xmatrix_offset exampleBasis"
proof -
  have "rawBox exampleBasis [0] [1 / 16] = Inr ([0], [0]) \<and>
        sunkBox exampleBasis [0] [1 / 16] = Inr ([0], [1])"
    by (simp add: rawBox_def sunkBox_def exampleBasis_def exampleLevels_def cornerIndices_def
          upper_bound_def uniqueKnots_def domainUBegin_def domainUEnd_def uIndex_def
          trivialBox_def Let_def)
  moreover have "m_xmatrix exampleSmallBox = m_xmatrix exampleBasis \<and>
        m_xmatrix_offset exampleSmallBox = m_xmatrix_offset exampleBasis"
    by (simp add: exampleSmallBox_def exampleBasis_def)
  ultimately show ?thesis using refine_exampleSmallBox by simp
qed

text \<open>
  C6, amended. In \<^verbatim>\<open>refine(boxes)\<close> the index box of a parametric box is widened before it
  is sunk, direction by direction: where the knot indices of the two corners coincide,
  the upper index goes up by one and the lower index goes down by one unless it is 0,
  where it stays, so that the sunk box has a positive width there; where they differ, both
  stay. (That the request changes the active sets is not part of the amended claim.)
\<close>

theorem refine_expands_trivial_box:
  assumes "rawBox st lo hi = Inr (r1, r2)"
  shows "\<exists>k1 k2. sunkBox st lo hi = Inr (k1, k2) \<and>
           length r1 = length (m_deg st) \<and> length r2 = length (m_deg st) \<and>
           length k1 = length (m_deg st) \<and> length k2 = length (m_deg st) \<and>
           (\<forall>j<length (m_deg st).
              (r1 ! j = r2 ! j \<longrightarrow>
                 k1 ! j = (if r1 ! j = 0 then 0 else r1 ! j - 1) \<and> k2 ! j = r2 ! j + 1 \<and>
                 k1 ! j < k2 ! j) \<and>
              (r1 ! j \<noteq> r2 ! j \<longrightarrow> k1 ! j = r1 ! j \<and> k2 ! j = r2 ! j)) \<and>
           (\<forall>st'. refineBox lo hi st = Inr st' \<longrightarrow>
              m_tree st' = sinkBox k1 k2 (length (m_bases st) - 1) (m_tree st))"
proof -
  let ?k1 = "map (fst \<circ> trivialBox) (zip r1 r2)"
  let ?k2 = "map (snd \<circ> trivialBox) (zip r1 r2)"
  from assms have ne: "m_bases st \<noteq> []"
    and raw: "boxIndices (\<lambda>k. k) (last (m_bases st)) lo hi [0..<length (m_deg st)] = Inr (r1, r2)"
    by (auto simp: rawBox_def split: if_splits)
  from boxIndices_adjust [OF raw, of trivialBox]
  have len: "length r1 = length (m_deg st)" "length r2 = length (m_deg st)"
    and "boxIndices trivialBox (last (m_bases st)) lo hi [0..<length (m_deg st)] =
           Inr (?k1, ?k2)"
    by simp_all
  with ne have sunk: "sunkBox st lo hi = Inr (?k1, ?k2)"
    by (simp add: sunkBox_def)
  have dirs: "\<forall>j<length (m_deg st).
              (r1 ! j = r2 ! j \<longrightarrow>
                 ?k1 ! j = (if r1 ! j = 0 then 0 else r1 ! j - 1) \<and> ?k2 ! j = r2 ! j + 1 \<and>
                 ?k1 ! j < ?k2 ! j) \<and>
              (r1 ! j \<noteq> r2 ! j \<longrightarrow> ?k1 ! j = r1 ! j \<and> ?k2 ! j = r2 ! j)"
    using len by (auto simp: trivialBox_def)
  have tree: "\<forall>st'. refineBox lo hi st = Inr st' \<longrightarrow>
              m_tree st' = sinkBox ?k1 ?k2 (length (m_bases st) - 1) (m_tree st)"
    by (auto simp: refineBox_def sunk Let_def split: sum.splits)
  have klen: "length ?k1 = length (m_deg st)" "length ?k2 = length (m_deg st)"
    using len by simp_all
  from sunk len klen dirs tree show ?thesis by blast
qed

lemma rawBox_example2:
  "rawBox exampleBasis2 [1 / 8, 0] [1 / 8, 1 / 2] = Inr ([1, 0], [1, 4])"
  by (simp add: rawBox_def exampleBasis2_def cornerIndices_def
        upper_bound_def uniqueKnots_def domainUBegin_def domainUEnd_def uIndex_def
        upt_rec Let_def)

theorem refine_expands_trivial_box_witness:
  "rawBox exampleBasis2 [1 / 8, 0] [1 / 8, 1 / 2] = Inr ([1, 0], [1, 4]) \<and>
   sunkBox exampleBasis2 [1 / 8, 0] [1 / 8, 1 / 2] = Inr ([0, 0], [2, 4]) \<and>
   (0::nat) < length (m_deg exampleBasis2) \<and> [1, 0] ! 0 = [1, 4 :: nat] ! 0 \<and>
   (1::nat) < length (m_deg exampleBasis2) \<and> [1, 0] ! 1 \<noteq> [1, 4 :: nat] ! 1 \<and>
   (\<exists>st'. refineBox [1 / 8, 0] [1 / 8, 1 / 2] exampleBasis2 = Inr st' \<and>
      m_tree st' =
        sinkBox [0, 0] [2, 4] (length (m_bases exampleBasis2) - 1) (m_tree exampleBasis2))"
proof -
  have l: "length (m_deg exampleBasis2) = 2" "length (m_bases exampleBasis2) - 1 = 2"
    by (simp_all add: exampleBasis2_def)
  have s: "sunkBox exampleBasis2 [1 / 8, 0] [1 / 8, 1 / 2] = Inr ([0, 0], [2, 4])"
    by (simp add: sunkBox_def exampleBasis2_def cornerIndices_def
        upper_bound_def uniqueKnots_def domainUBegin_def domainUEnd_def uIndex_def
        trivialBox_def upt_rec Let_def)
  have r: "\<exists>st'. refineBox [1 / 8, 0] [1 / 8, 1 / 2] exampleBasis2 = Inr st'"
    unfolding refineBox_def s
    by (simp add: sinkBox_def local2globalIndex_def overlaps_def
          needLevel_def getMaxInsLevel_def exampleBasis2_def Let_def)
  from refine_expands_trivial_box [OF rawBox_example2]
  obtain k1 k2 where k: "sunkBox exampleBasis2 [1 / 8, 0] [1 / 8, 1 / 2] = Inr (k1, k2)"
    and t: "\<forall>st'. refineBox [1 / 8, 0] [1 / 8, 1 / 2] exampleBasis2 = Inr st' \<longrightarrow>
              m_tree st' =
                sinkBox k1 k2 (length (m_bases exampleBasis2) - 1) (m_tree exampleBasis2)"
    by blast
  from k s have "k1 = [0, 0]" "k2 = [2, 4]" by simp_all
  with t r have "\<exists>st'. refineBox [1 / 8, 0] [1 / 8, 1 / 2] exampleBasis2 = Inr st' \<and>
      m_tree st' =
        sinkBox [0, 0] [2, 4] (length (m_bases exampleBasis2) - 1) (m_tree exampleBasis2)"
    by blast
  with rawBox_example2 s l show ?thesis by simp
qed


end
